theory Spec2Isabelle
  imports Complex_Main "HOL-Library.Word"
begin

section \<open>JavaScript values used by the battery reader\<close>

text \<open>
  A JavaScript number is a finite value, \<open>NaN\<close> or one of the two infinities. Finite
  values are kept exact (a real), so the rounding of IEEE doubles is outside the model.
  A field that may be missing (\<open>undefined\<close>) is an \<open>option\<close>.
\<close>

datatype jsnum = NaN | PosInf | NegInf | Fin real

text \<open>\<open>x || d\<close> for a number (or \<open>undefined\<close>) \<open>x\<close>: \<open>undefined\<close>, \<open>NaN\<close> and \<open>0\<close> are falsy.\<close>

fun js_or :: "jsnum option \<Rightarrow> jsnum \<Rightarrow> jsnum" where
  "js_or None d = d"
| "js_or (Some NaN) d = d"
| "js_or (Some (Fin r)) d = (if r = 0 then d else Fin r)"
| "js_or (Some PosInf) d = PosInf"
| "js_or (Some NegInf) d = NegInf"

definition trunc_real :: "real \<Rightarrow> int" where
  "trunc_real r = (if 0 \<le> r then \<lfloor>r\<rfloor> else \<lceil>r\<rceil>)"

fun Math_trunc :: "jsnum \<Rightarrow> jsnum" where
  "Math_trunc (Fin r) = Fin (of_int (trunc_real r))"
| "Math_trunc NaN = NaN"
| "Math_trunc PosInf = PosInf"
| "Math_trunc NegInf = NegInf"

fun Math_max :: "jsnum \<Rightarrow> jsnum \<Rightarrow> jsnum" where
  "Math_max NaN b = NaN"
| "Math_max a NaN = NaN"
| "Math_max PosInf b = PosInf"
| "Math_max a PosInf = PosInf"
| "Math_max NegInf b = b"
| "Math_max a NegInf = a"
| "Math_max (Fin a) (Fin b) = Fin (max a b)"

text \<open>\<open>Math.round\<close> rounds a half towards plus infinity.\<close>

fun Math_round :: "jsnum \<Rightarrow> jsnum" where
  "Math_round (Fin r) = Fin (of_int \<lfloor>r + 1 / 2\<rfloor>)"
| "Math_round NaN = NaN"
| "Math_round PosInf = PosInf"
| "Math_round NegInf = NegInf"

fun js_mul :: "jsnum \<Rightarrow> jsnum \<Rightarrow> jsnum" where
  "js_mul (Fin a) (Fin b) = Fin (a * b)"
| "js_mul NaN b = NaN"
| "js_mul a NaN = NaN"
| "js_mul PosInf (Fin b) = (if b = 0 then NaN else if 0 < b then PosInf else NegInf)"
| "js_mul NegInf (Fin b) = (if b = 0 then NaN else if 0 < b then NegInf else PosInf)"
| "js_mul (Fin a) PosInf = (if a = 0 then NaN else if 0 < a then PosInf else NegInf)"
| "js_mul (Fin a) NegInf = (if a = 0 then NaN else if 0 < a then NegInf else PosInf)"
| "js_mul PosInf PosInf = PosInf"
| "js_mul PosInf NegInf = NegInf"
| "js_mul NegInf PosInf = NegInf"
| "js_mul NegInf NegInf = PosInf"

text \<open>\<open>a <= b\<close> and \<open>a === b\<close> on numbers: every comparison with \<open>NaN\<close> is false.\<close>

fun js_le :: "jsnum \<Rightarrow> jsnum \<Rightarrow> bool" where
  "js_le NaN b = False"
| "js_le a NaN = False"
| "js_le NegInf b = True"
| "js_le a PosInf = True"
| "js_le PosInf b = False"
| "js_le a NegInf = False"
| "js_le (Fin a) (Fin b) = (a \<le> b)"

fun js_eq :: "jsnum \<Rightarrow> jsnum \<Rightarrow> bool" where
  "js_eq NaN b = False"
| "js_eq a NaN = False"
| "js_eq a b = (a = b)"

text \<open>
  Strings are lists of characters with codes below 256. \<open>trim\<close> removes the white space
  and line terminators of that range; \<open>toLowerCase\<close> maps the upper-case letters of
  that range.
\<close>

definition is_js_space :: "char \<Rightarrow> bool" where
  "is_js_space c = ((of_char c :: nat) \<in> {9, 10, 11, 12, 13, 32, 160})"

definition js_trim :: "string \<Rightarrow> string" where
  "js_trim s = rev (dropWhile is_js_space (rev (dropWhile is_js_space s)))"

definition lower_char :: "char \<Rightarrow> char" where
  "lower_char c =
     (let n = (of_char c :: nat)
      in if (65 \<le> n \<and> n \<le> 90) \<or> (192 \<le> n \<and> n \<le> 222 \<and> n \<noteq> 215)
         then char_of (n + 32) else c)"

definition toLowerCase :: "string \<Rightarrow> string" where
  "toLowerCase s = map lower_char s"

text \<open>\<open>s.includes(pat)\<close>: \<open>pat\<close> occurs in \<open>s\<close> as a contiguous substring.\<close>

fun js_includes :: "string \<Rightarrow> string \<Rightarrow> bool" where
  "js_includes [] pat = (pat = [])"
| "js_includes (c # cs) pat = (take (length pat) (c # cs) = pat \<or> js_includes cs pat)"

definition digit_char :: "nat \<Rightarrow> char" where
  "digit_char d = (if d < 10 then char_of (48 + d) else char_of (87 + d))"

text \<open>\<open>n.toString(radix)\<close> for a natural number, radix 10 or 16.\<close>

fun digits_of :: "nat \<Rightarrow> nat \<Rightarrow> string" where
  "digits_of radix n =
     (if radix < 2 \<or> n < radix then [digit_char n]
      else digits_of radix (n div radix) @ [digit_char (n mod radix)])"

declare digits_of.simps [simp del]

definition int_toString :: "nat \<Rightarrow> int \<Rightarrow> string" where
  "int_toString radix i =
     (if i < 0 then CHR ''-'' # digits_of radix (nat (- i)) else digits_of radix (nat i))"

definition padStart :: "nat \<Rightarrow> char \<Rightarrow> string \<Rightarrow> string" where
  "padStart n c s = replicate (n - length s) c @ s"

type_synonym byte = "8 word"

text \<open>\<open>Buffer.from(data).toString("hex")\<close>: two lower-case digits for each byte.\<close>

definition hex_of_bytes :: "byte list \<Rightarrow> string" where
  "hex_of_bytes bs =
     concat (map (\<lambda>b. [digit_char (unat b div 16), digit_char (unat b mod 16)]) bs)"

text \<open>\<open>xs[i]\<close> on a JavaScript array: \<open>undefined\<close> out of range.\<close>

definition js_index :: "'a list \<Rightarrow> nat \<Rightarrow> 'a option" where
  "js_index xs i = (if i < length xs then Some (xs ! i) else None)"

section \<open>hidReader.js: locating the device\<close>

text \<open>
  One entry of \<open>HID.devices()\<close>. The path is a string, a buffer (kept as its decoded
  text) or missing; the interface number is read from \<open>interface\<close> and, when that is
  null or undefined, from \<open>interfaceNumber\<close>.
\<close>

datatype hid_path = PathUndefined | PathString string | PathBuffer string

record device_info =
  vendorId :: int
  productId :: int
  path :: hid_path
  interface :: "int option"
  interfaceNumber :: "int option"

fun normalisePath :: "hid_path \<Rightarrow> string option" where
  "normalisePath PathUndefined = None"
| "normalisePath (PathString s) = (if s = [] then None else Some s)"
| "normalisePath (PathBuffer s) = Some s"

text \<open>The loop of \<open>findDevicePath\<close> that fills \<open>matches\<close>, in enumeration order.\<close>

fun collect_matches :: "int \<Rightarrow> int \<Rightarrow> device_info list \<Rightarrow> (device_info \<times> string) list" where
  "collect_matches vid pid [] = []"
| "collect_matches vid pid (info # rest) =
     (if vendorId info \<noteq> vid \<or> productId info \<noteq> pid then collect_matches vid pid rest
      else (case normalisePath (path info) of
              None \<Rightarrow> collect_matches vid pid rest
            | Some devicePath \<Rightarrow>
                if devicePath = [] then collect_matches vid pid rest
                else (info, devicePath) # collect_matches vid pid rest))"

definition iface_of :: "device_info \<Rightarrow> int option" where
  "iface_of info = (case interface info of Some i \<Rightarrow> Some i | None \<Rightarrow> interfaceNumber info)"

text \<open>
  \<open>findDevicePath\<close>: the enumeration either throws (\<open>Inl\<close> its message) or yields the
  device list. The result is \<open>Inl\<close> the message of the error thrown, \<open>Inr None\<close> for
  \<open>undefined\<close>, or \<open>Inr (Some path)\<close>.
\<close>

definition findDevicePath :: "string + device_info list \<Rightarrow> int \<Rightarrow> int \<Rightarrow> string + string option" where
  "findDevicePath enumeration vid pid =
     (case enumeration of
        Inl msg \<Rightarrow> Inl (''Unable to enumerate HID devices: '' @ msg)
      | Inr devices \<Rightarrow>
          (let matches = collect_matches vid pid devices in
           if length matches = 0 then Inr None
           else (case List.find (\<lambda>(info, devicePath). iface_of info = Some 2) matches of
                   Some exactInterface \<Rightarrow> Inr (Some (snd exactInterface))
                 | None \<Rightarrow>
                     (case List.find (\<lambda>(info, devicePath).
                                        js_includes (toLowerCase devicePath) ''mi_02'') matches of
                        Some preferredPath \<Rightarrow> Inr (Some (snd preferredPath))
                      | None \<Rightarrow>
                          (case matches of
                             [] \<Rightarrow> Inr None
                           | first # _ \<Rightarrow> Inr (Some (snd first)))))))"

section \<open>hidReader.js: one read attempt\<close>

text \<open>
  The calls made on the HID library and the timers set, in order. An open records
  whether a handle was obtained, a write whether it went through, a close whether
  \<open>device.close()\<close> threw inside \<open>safeClose\<close>.
\<close>

datatype hid_event =
    EnumerateDevices
  | OpenDevice string bool
  | SendFeatureReport "byte list" bool
  | SetTimeout jsnum
  | GetFeatureReport nat nat
  | CloseDevice bool

text \<open>
  What the device does during one attempt: \<open>open_throws\<close>, \<open>send_throws\<close> hold the
  message of the error thrown by \<open>new HID.HID(path)\<close> and \<open>sendFeatureReport\<close>, if
  any; \<open>report\<close> is \<open>Inl\<close> the message thrown by \<open>getFeatureReport\<close>, or \<open>Inr\<close>
  the data returned (\<open>None\<close> when absent); \<open>close_throws\<close> tells whether \<open>close()\<close>
  throws.
\<close>

record attempt_faults =
  open_throws :: "string option"
  send_throws :: "string option"
  report :: "string + byte list option"
  close_throws :: bool

datatype hid_handle = Handle string

datatype attempt_outcome = Success int | Failure string

definition ANGRY_MIAO_INIT_FEATURE :: "byte list" where
  "ANGRY_MIAO_INIT_FEATURE = (replicate 65 0)[1 := 0xF7]"

definition ANGRY_MIAO_REPORT_ID :: byte where
  "ANGRY_MIAO_REPORT_ID = 0xF7"

definition DEFAULT_BUFFER_LENGTH :: nat where
  "DEFAULT_BUFFER_LENGTH = 65"

definition DEFAULT_VENDOR_ID :: int where
  "DEFAULT_VENDOR_ID = 0x3151"

definition DEFAULT_PRODUCT_ID :: int where
  "DEFAULT_PRODUCT_ID = 0x5007"

text \<open>\<open>wait(ms)\<close> sets a timer only for a positive delay.\<close>

definition wait :: "jsnum \<Rightarrow> hid_event list" where
  "wait ms = (if js_le ms (Fin 0) then [] else [SetTimeout ms])"

text \<open>\<open>safeClose\<close> returns normally whatever \<open>close()\<close> does: it yields events only.\<close>

definition safeClose :: "attempt_faults \<Rightarrow> hid_handle option \<Rightarrow> hid_event list" where
  "safeClose f device =
     (case device of None \<Rightarrow> [] | Some h \<Rightarrow> [CloseDevice (close_throws f)])"

text \<open>
  The body of the retry loop of \<open>readBatteryPercentage\<close>: the events of one iteration
  and how it ends, \<open>Success\<close> for the \<open>return\<close>, \<open>Failure\<close> with the message stored in
  \<open>lastError\<close> for each \<open>continue\<close> and for the \<open>catch\<close>. The \<open>finally\<close> block adds
  a second \<open>safeClose\<close> to every path through the last \<open>try\<close>.
\<close>

definition readAttempt :: "string \<Rightarrow> jsnum \<Rightarrow> nat \<Rightarrow> attempt_faults \<Rightarrow> hid_event list \<times> attempt_outcome" where
  "readAttempt targetPath initDelay attempt f =
     (case open_throws f of
        Some msg \<Rightarrow>
          ([OpenDevice targetPath False], Failure (''Unable to open HID device: '' @ msg))
      | None \<Rightarrow>
          (let device = Some (Handle targetPath);
               opened = [OpenDevice targetPath True]
           in case send_throws f of
                Some msg \<Rightarrow>
                  (opened @ [SendFeatureReport ANGRY_MIAO_INIT_FEATURE False]
                     @ safeClose f device @ wait initDelay,
                   Failure (''Failed to send init feature (attempt ''
                              @ digits_of 10 attempt @ ''): '' @ msg))
              | None \<Rightarrow>
                  (let requested = opened @ [SendFeatureReport ANGRY_MIAO_INIT_FEATURE True]
                         @ wait initDelay
                         @ [GetFeatureReport (unat ANGRY_MIAO_REPORT_ID) DEFAULT_BUFFER_LENGTH]
                   in case report f of
                        Inl msg \<Rightarrow>
                          (requested @ safeClose f device,
                           Failure (''Failed to read feature report (attempt ''
                                      @ digits_of 10 attempt @ ''): '' @ msg))
                      | Inr None \<Rightarrow>
                          (requested @ safeClose f device @ safeClose f device,
                           Failure (''Unexpected feature report: '' @ ''null''))
                      | Inr (Some data) \<Rightarrow>
                          if length data < 4 \<or> js_index data 0 \<noteq> Some ANGRY_MIAO_REPORT_ID
                          then (requested @ safeClose f device @ safeClose f device,
                                Failure (''Unexpected feature report: '' @ hex_of_bytes data))
                          else (case js_index data 3 of
                                  None \<Rightarrow>
                                    (requested @ safeClose f device @ safeClose f device,
                                     Failure ''Battery value missing in report'')
                                | Some battery \<Rightarrow>
                                    (requested @ safeClose f device @ safeClose f device,
                                     Success (min 100 (max 0 (uint battery))))))))"

section \<open>hidReader.js: the retry loop\<close>

text \<open>
  The configuration as \<open>readBatteryPercentage\<close> receives it. \<open>vid\<close> and \<open>pid\<close> hold
  the values of \<open>parseConfigInt(config.vid)\<close> and \<open>parseConfigInt(config.pid)\<close>
  (\<open>None\<close> for \<open>undefined\<close>); the parser itself is not part of this development.
\<close>

record BatteryConfig =
  hidPath :: "string option"
  vid :: "int option"
  pid :: "int option"
  pollIntervalSeconds :: jsnum
  initDelayMs :: "jsnum option"
  retryCount :: "jsnum option"

text \<open>
  The world outside: what \<open>HID.devices()\<close> does, and what the device does during the
  attempt of each number.
\<close>

record hid_world =
  enumeration :: "string + device_info list"
  faults :: "nat \<Rightarrow> attempt_faults"

definition normRetryCount :: "BatteryConfig \<Rightarrow> jsnum" where
  "normRetryCount config = Math_max (Fin 1) (Math_trunc (js_or (retryCount config) (Fin 1)))"

definition normInitDelay :: "BatteryConfig \<Rightarrow> jsnum" where
  "normInitDelay config = Math_max (Fin 0) (Math_trunc (js_or (initDelayMs config) (Fin 0)))"

definition targetVid :: "BatteryConfig \<Rightarrow> int" where
  "targetVid config = (case vid config of Some v \<Rightarrow> v | None \<Rightarrow> DEFAULT_VENDOR_ID)"

definition targetPid :: "BatteryConfig \<Rightarrow> int" where
  "targetPid config = (case pid config of Some v \<Rightarrow> v | None \<Rightarrow> DEFAULT_PRODUCT_ID)"

definition deviceNotFoundMessage :: "int \<Rightarrow> int \<Rightarrow> string" where
  "deviceNotFoundMessage v p =
     ''Device not found (VID 0x'' @ padStart 4 CHR ''0'' (int_toString 16 v)
       @ '', PID 0x'' @ padStart 4 CHR ''0'' (int_toString 16 p) @ '')''"

text \<open>
  Lines 137 to 148: the events of resolving \<open>targetPath\<close> and either the message of the
  error thrown or the path.
\<close>

definition resolveTargetPath :: "hid_world \<Rightarrow> BatteryConfig \<Rightarrow> hid_event list \<times> (string + string)" where
  "resolveTargetPath w config =
     (let targetPath = js_trim (case hidPath config of None \<Rightarrow> [] | Some s \<Rightarrow> s)
      in if targetPath \<noteq> [] then ([], Inr targetPath)
         else (case findDevicePath (enumeration w) (targetVid config) (targetPid config) of
                 Inl msg \<Rightarrow> ([EnumerateDevices], Inl msg)
               | Inr None \<Rightarrow>
                   ([EnumerateDevices],
                    Inl (deviceNotFoundMessage (targetVid config) (targetPid config)))
               | Inr (Some resolved) \<Rightarrow> ([EnumerateDevices], Inr resolved)))"

text \<open>
  The \<open>for\<close> loop, with \<open>retryLimit\<close> the normalised \<open>retryCount\<close>. The limit may be
  infinite, so the loop need not end: the result is \<open>None\<close> when it runs forever, else
  the events and \<open>Inr\<close> the value returned or \<open>Inl\<close> the message of the error thrown.
  The attempt counter is an exact natural number.
\<close>

partial_function (option) retryLoop ::
  "(nat \<Rightarrow> attempt_faults) \<Rightarrow> string \<Rightarrow> jsnum \<Rightarrow> jsnum \<Rightarrow> nat \<Rightarrow> string option \<Rightarrow> hid_event list
     \<Rightarrow> (hid_event list \<times> (string + int)) option" where
  "retryLoop env targetPath initDelay retryLimit attempt lastError events =
     (if js_le (Fin (real attempt)) retryLimit
      then (case readAttempt targetPath initDelay attempt (env attempt) of
              (evs, Success battery) \<Rightarrow> Some (events @ evs, Inr battery)
            | (evs, Failure msg) \<Rightarrow>
                retryLoop env targetPath initDelay retryLimit (attempt + 1) (Some msg) (events @ evs))
      else Some (events,
                 Inl (case lastError of
                        Some msg \<Rightarrow> msg
                      | None \<Rightarrow> ''Unable to read battery percentage'')))"

definition readBatteryPercentage :: "hid_world \<Rightarrow> BatteryConfig \<Rightarrow> (hid_event list \<times> (string + int)) option" where
  "readBatteryPercentage w config =
     (let retryCount = normRetryCount config;
          initDelay = normInitDelay config
      in case resolveTargetPath w config of
           (evs, Inl msg) \<Rightarrow> Some (evs, Inl msg)
         | (evs, Inr targetPath) \<Rightarrow>
             retryLoop (faults w) targetPath initDelay retryCount 1 None evs)"

section \<open>plugin.js: statuses and the polling scheduler\<close>

text \<open>
  The status objects the plugin builds: \<open>{kind: "unknown", label}\<close>,
  \<open>{kind: "value", value, label}\<close> and \<open>{kind: "error", label, detail}\<close>.
\<close>

datatype status =
    Unknown (label: string)
  | Value (value_of: int) (label: string)
  | Error (label: string) (detail: string)

fun kind :: "status \<Rightarrow> string" where
  "kind (Unknown l) = ''unknown''"
| "kind (Value v l) = ''value''"
| "kind (Error l d) = ''error''"

definition statusesEqual :: "status \<Rightarrow> status \<Rightarrow> bool" where
  "statusesEqual a b =
     (if kind a \<noteq> kind b then False
      else if kind a = ''value'' \<and> kind b = ''value'' then value_of a = value_of b
      else if kind a = ''error'' \<and> kind b = ''error''
           then label a = label b \<and> detail a = detail b
      else True)"

text \<open>
  What the plugin does to the outside: it starts \<open>readBatteryOnce()\<close> with the current
  configuration, draws a key with a status, sets and clears the interval timer. Drawing
  and logging are taken not to throw.
\<close>

datatype plugin_effect =
    ReadBatteryOnce BatteryConfig
  | DrawKey string status
  | SetInterval jsnum
  | ClearInterval jsnum

text \<open>
  The module-level variables. \<open>batteryKeys\<close> keeps the key ids in insertion order;
  \<open>pollTimer\<close> holds the interval the running timer was created with;
  \<open>awaitedForceRedraw\<close> is the \<open>forceRedraw\<close> argument of the call of \<open>pollAndUpdate\<close>
  that is suspended at its \<open>await\<close>. The timer and the variables of the configuration
  loader's own retry are left out.
\<close>

record plugin_state =
  pluginConfig :: BatteryConfig
  batteryKeys :: "string list"
  pollTimer :: "jsnum option"
  pollIntervalMs :: jsnum
  pollInFlight :: bool
  latestStatus :: status
  pendingForcedRefresh :: bool
  awaitedForceRedraw :: bool
  effects :: "plugin_effect list"

definition MIN_POLL_INTERVAL_MS :: jsnum where
  "MIN_POLL_INTERVAL_MS = Fin 5000"

definition BATTERY_CID :: string where
  "BATTERY_CID = ''com.hankun.mousebattery.status''"

text \<open>
  The product of \<open>getPollIntervalMs\<close> is exact here. The code multiplies doubles, which
  can differ by one after rounding for some fractional seconds and overflows to infinity
  for huge ones; for whole seconds of ordinary size the two agree.
\<close>

definition getPollIntervalMs :: "BatteryConfig \<Rightarrow> jsnum" where
  "getPollIntervalMs config =
     Math_max MIN_POLL_INTERVAL_MS (Math_round (js_mul (pollIntervalSeconds config) (Fin 1000)))"

definition renderAllKeys :: "plugin_state \<Rightarrow> plugin_state" where
  "renderAllKeys s =
     s\<lparr>effects := effects s @ map (\<lambda>keyId. DrawKey keyId (latestStatus s)) (batteryKeys s)\<rparr>"

text \<open>\<open>pollAndUpdate\<close> up to its \<open>await\<close>.\<close>

definition pollAndUpdate :: "bool \<Rightarrow> bool \<Rightarrow> plugin_state \<Rightarrow> plugin_state" where
  "pollAndUpdate forceRedraw force s =
     (if pollInFlight s
      then (if force then s\<lparr>pendingForcedRefresh := True\<rparr> else s)
      else if length (batteryKeys s) = 0 then s
      else s\<lparr>pollInFlight := True, awaitedForceRedraw := forceRedraw,
             effects := effects s @ [ReadBatteryOnce (pluginConfig s)]\<rparr>)"

text \<open>
  \<open>pollAndUpdate\<close> from its \<open>await\<close> on, when the read has settled with \<open>Inr\<close> the
  percentage or \<open>Inl\<close> the message of the error: the \<open>try\<close> or the \<open>catch\<close> branch, then
  the \<open>finally\<close> block.
\<close>

definition pollSettled :: "string + int \<Rightarrow> plugin_state \<Rightarrow> plugin_state" where
  "pollSettled outcome s =
     (let forceRedraw = awaitedForceRedraw s;
          status = (case outcome of
                      Inr result \<Rightarrow> Value result (int_toString 10 result @ ''%'')
                    | Inl message \<Rightarrow> Error ''error'' message);
          s1 = (if \<not> statusesEqual status (latestStatus s) \<or> forceRedraw
                then renderAllKeys (s\<lparr>latestStatus := status\<rparr>) else s);
          s2 = s1\<lparr>pollInFlight := False\<rparr>
      in if pendingForcedRefresh s2
         then pollAndUpdate True False (s2\<lparr>pendingForcedRefresh := False\<rparr>)
         else s2)"

definition stopPolling :: "plugin_state \<Rightarrow> plugin_state" where
  "stopPolling s =
     (case pollTimer s of
        Some t \<Rightarrow> s\<lparr>pollTimer := None, effects := effects s @ [ClearInterval t]\<rparr>
      | None \<Rightarrow> s)"

definition ensurePolling :: "plugin_state \<Rightarrow> plugin_state" where
  "ensurePolling s =
     (if length (batteryKeys s) = 0 then stopPolling s
      else (let desiredInterval = getPollIntervalMs (pluginConfig s)
            in if pollTimer s \<noteq> None \<and> js_eq (pollIntervalMs s) desiredInterval then s
               else (let s1 = (case pollTimer s of
                                 Some t \<Rightarrow> s\<lparr>effects := effects s @ [ClearInterval t]\<rparr>
                               | None \<Rightarrow> s);
                         s2 = s1\<lparr>pollIntervalMs := desiredInterval\<rparr>;
                         s3 = s2\<lparr>pollTimer := Some (pollIntervalMs s2),
                                 effects := effects s2 @ [SetInterval (pollIntervalMs s2)]\<rparr>
                     in pollAndUpdate True False s3)))"

text \<open>
  The handlers. \<open>onConfigUpdated\<close> receives the configuration that \<open>buildConfig\<close> made
  of the payload; \<open>onTimerTick\<close> is the callback given to \<open>setInterval\<close>;
  \<open>onPluginData\<close> is the handler of a key press, the only caller that passes
  \<open>force = true\<close>.
\<close>

definition onConfigUpdated :: "BatteryConfig \<Rightarrow> plugin_state \<Rightarrow> plugin_state" where
  "onConfigUpdated config s =
     ensurePolling (s\<lparr>pluginConfig := config, pollIntervalMs := getPollIntervalMs config\<rparr>)"

definition onTimerTick :: "plugin_state \<Rightarrow> plugin_state" where
  "onTimerTick s = pollAndUpdate False False s"

record data_payload =
  serialNumber :: string
  key_cid :: "string option"
  key_uid :: string

definition makeKeyId :: "string \<Rightarrow> string \<Rightarrow> string" where
  "makeKeyId serial uid = serial @ '':'' @ uid"

definition onPluginData :: "data_payload \<Rightarrow> plugin_state \<Rightarrow> plugin_state" where
  "onPluginData payload s =
     (if key_cid payload \<noteq> Some BATTERY_CID then s
      else (let keyId = makeKeyId (serialNumber payload) (key_uid payload);
                s1 = (if keyId \<notin> set (batteryKeys s)
                      then s\<lparr>batteryKeys := batteryKeys s @ [keyId]\<rparr> else s)
            in pollAndUpdate True True s1))"

text \<open>The two triggers of a poll, and a run of them.\<close>

datatype trigger = TimerTick | ForcedRefresh data_payload

fun fire :: "trigger \<Rightarrow> plugin_state \<Rightarrow> plugin_state" where
  "fire TimerTick s = onTimerTick s"
| "fire (ForcedRefresh payload) s = onPluginData payload s"

fun fire_all :: "trigger list \<Rightarrow> plugin_state \<Rightarrow> plugin_state" where
  "fire_all [] s = s"
| "fire_all (t # ts) s = fire_all ts (fire t s)"

fun is_forced :: "trigger \<Rightarrow> bool" where
  "is_forced TimerTick = False"
| "is_forced (ForcedRefresh payload) = (key_cid payload = Some BATTERY_CID)"

definition reads_started :: "plugin_state \<Rightarrow> nat" where
  "reads_started s = length (filter (\<lambda>e. case e of ReadBatteryOnce c \<Rightarrow> True | _ \<Rightarrow> False) (effects s))"

text \<open>\<open>plugin.alive\<close>: register and draw each battery key, then \<open>ensurePolling\<close>.\<close>

record key_info =
  cid :: string
  uid :: string

fun register_keys :: "string \<Rightarrow> key_info list \<Rightarrow> plugin_state \<Rightarrow> plugin_state" where
  "register_keys serial [] s = s"
| "register_keys serial (key # rest) s =
     (if cid key = BATTERY_CID
      then (let keyId = makeKeyId serial (uid key);
                s1 = (if keyId \<notin> set (batteryKeys s)
                      then s\<lparr>batteryKeys := batteryKeys s @ [keyId]\<rparr> else s);
                s2 = s1\<lparr>effects := effects s1 @ [DrawKey keyId (latestStatus s1)]\<rparr>
            in register_keys serial rest s2)
      else register_keys serial rest s)"

definition onPluginAlive :: "string \<Rightarrow> key_info list \<Rightarrow> plugin_state \<Rightarrow> plugin_state" where
  "onPluginAlive serial keys s = ensurePolling (register_keys serial keys s)"

text \<open>
  The module's state when it is loaded: \<open>buildConfig()\<close> is \<open>DEFAULT_CONFIG\<close>, whose
  empty \<open>vid\<close> and \<open>pid\<close> parse to \<open>undefined\<close>.
\<close>

definition DEFAULT_CONFIG :: BatteryConfig where
  "DEFAULT_CONFIG =
     \<lparr>hidPath = Some [], vid = None, pid = None, pollIntervalSeconds = Fin 30,
      initDelayMs = Some (Fin 50), retryCount = Some (Fin 3)\<rparr>"

definition initial_state :: plugin_state where
  "initial_state =
     \<lparr>pluginConfig = DEFAULT_CONFIG, batteryKeys = [], pollTimer = None,
      pollIntervalMs = js_mul (pollIntervalSeconds DEFAULT_CONFIG) (Fin 1000),
      pollInFlight = False, latestStatus = Unknown ''waiting'',
      pendingForcedRefresh = False, awaitedForceRedraw = False, effects = []\<rparr>"

section \<open>Notions used to state the properties\<close>

text \<open>The events and the outcome of the attempt of a given number.\<close>

definition attemptEvents :: "(nat \<Rightarrow> attempt_faults) \<Rightarrow> string \<Rightarrow> jsnum \<Rightarrow> nat \<Rightarrow> hid_event list" where
  "attemptEvents env targetPath initDelay i = fst (readAttempt targetPath initDelay i (env i))"

definition attemptOutcome :: "(nat \<Rightarrow> attempt_faults) \<Rightarrow> string \<Rightarrow> jsnum \<Rightarrow> nat \<Rightarrow> attempt_outcome" where
  "attemptOutcome env targetPath initDelay i = snd (readAttempt targetPath initDelay i (env i))"

fun is_failure :: "attempt_outcome \<Rightarrow> bool" where
  "is_failure (Failure msg) = True"
| "is_failure (Success v) = False"

text \<open>Every attempt begins with one \<open>new HID.HID(path)\<close>: the attempts made are the opens.\<close>

fun is_open :: "hid_event \<Rightarrow> bool" where
  "is_open (OpenDevice p ok) = True"
| "is_open e = False"

definition attempts_made :: "hid_event list \<Rightarrow> nat" where
  "attempts_made evs = length (filter is_open evs)"

text \<open>
  Whether a handle is open after a run of events, given whether one was open before. A
  handle counts as released once \<open>close()\<close> has been called on it.
\<close>

fun handle_open_after :: "bool \<Rightarrow> hid_event list \<Rightarrow> bool" where
  "handle_open_after h [] = h"
| "handle_open_after h (OpenDevice p ok # es) = handle_open_after (h \<or> ok) es"
| "handle_open_after h (CloseDevice thrown # es) = handle_open_after False es"
| "handle_open_after h (e # es) = handle_open_after h es"

text \<open>The validation of the feature report in the words of the specification.\<close>

definition valid_report :: "byte list option \<Rightarrow> bool" where
  "valid_report data =
     (case data of None \<Rightarrow> False | Some bs \<Rightarrow> 4 \<le> length bs \<and> bs ! 0 = 0xF7)"

text \<open>
  The selection policy in the words of the specification: keep the candidates whose
  vendor and product ids match, then take the first with interface number 2, else the
  first whose path contains \<open>mi_02\<close> in any case, else the first.
\<close>

definition candidate_path :: "device_info \<Rightarrow> string" where
  "candidate_path d = (case normalisePath (path d) of Some p \<Rightarrow> p | None \<Rightarrow> [])"

definition locate_as_specified :: "int \<Rightarrow> int \<Rightarrow> device_info list \<Rightarrow> device_info option" where
  "locate_as_specified v p devices =
     (let candidates = filter (\<lambda>d. vendorId d = v \<and> productId d = p) devices
      in case List.find (\<lambda>d. iface_of d = Some 2) candidates of
           Some d \<Rightarrow> Some d
         | None \<Rightarrow>
             (case List.find (\<lambda>d. js_includes (toLowerCase (candidate_path d)) ''mi_02'')
                     candidates of
                Some d \<Rightarrow> Some d
              | None \<Rightarrow> (case candidates of [] \<Rightarrow> None | d # _ \<Rightarrow> Some d)))"

definition has_path :: "device_info \<Rightarrow> bool" where
  "has_path d = (candidate_path d \<noteq> [])"

text \<open>The message an attempt leaves in \<open>lastError\<close>.\<close>

fun failure_message :: "attempt_outcome \<Rightarrow> string option" where
  "failure_message (Failure msg) = Some msg"
| "failure_message (Success v) = None"

text \<open>
  Example devices and worlds: a device that answers with a given report, one that cannot
  be opened, a configuration that pins the path, a device that is busy twice and then
  answers, and one that fails three times in three different ways.
\<close>

definition ready_device :: "byte list \<Rightarrow> attempt_faults" where
  "ready_device bs = \<lparr>open_throws = None, send_throws = None, report = Inr (Some bs), close_throws = False\<rparr>"

definition busy_device :: "string \<Rightarrow> attempt_faults" where
  "busy_device msg = \<lparr>open_throws = Some msg, send_throws = None, report = Inr None, close_throws = False\<rparr>"

definition pinned_config :: BatteryConfig where
  "pinned_config = \<lparr>hidPath = Some ''usb-1'', vid = None, pid = None, pollIntervalSeconds = Fin 30,
      initDelayMs = Some (Fin 50), retryCount = Some (Fin 3)\<rparr>"

definition flaky_world :: hid_world where
  "flaky_world =
     \<lparr>enumeration = Inr [],
      faults = (\<lambda>i. if i \<le> 2 then busy_device ''busy'' else ready_device [0xF7, 0, 0, 57])\<rparr>"

definition dead_world :: hid_world where
  "dead_world =
     \<lparr>enumeration = Inr [],
      faults = (\<lambda>i. if i = 1 then busy_device ''busy''
                    else if i = 2 then (ready_device []) \<lparr>send_throws := Some ''stalled''\<rparr>
                    else ready_device [0xF7, 0, 0])\<rparr>"

text \<open>
  What a malformed report leaves behind: the message stored in \<open>lastError\<close>, and the
  events of such an attempt.
\<close>

definition parse_error :: "byte list option \<Rightarrow> string" where
  "parse_error data =
     ''Unexpected feature report: '' @ (case data of None \<Rightarrow> ''null'' | Some bs \<Rightarrow> hex_of_bytes bs)"

definition parse_failure_events :: "string \<Rightarrow> jsnum \<Rightarrow> attempt_faults \<Rightarrow> hid_event list" where
  "parse_failure_events p d f =
     [OpenDevice p True, SendFeatureReport ANGRY_MIAO_INIT_FEATURE True] @ wait d
       @ [GetFeatureReport 0xF7 65, CloseDevice (close_throws f), CloseDevice (close_throws f)]"

text \<open>A device that always answers with 250 at offset 3, and the payload of a key press.\<close>

definition steady_world :: hid_world where
  "steady_world = \<lparr>enumeration = Inr [], faults = (\<lambda>i. ready_device [0xF7, 0, 0, 250])\<rparr>"

definition battery_key :: data_payload where
  "battery_key = \<lparr>serialNumber = ''dev'', key_cid = Some BATTERY_CID, key_uid = ''1''\<rparr>"

text \<open>
  Example enumerations: one whose first matching entry has interface 2 but no path, and
  one with three interfaces of which the second belongs to another vendor.
\<close>

definition unusable_first :: "device_info list" where
  "unusable_first =
     [\<lparr>vendorId = 0x3151, productId = 0x5007, path = PathUndefined,
       interface = Some 2, interfaceNumber = None\<rparr>,
      \<lparr>vendorId = 0x3151, productId = 0x5007, path = PathString ''usb-b'',
       interface = Some 0, interfaceNumber = None\<rparr>]"

definition three_interfaces :: "device_info list" where
  "three_interfaces =
     [\<lparr>vendorId = 0x3151, productId = 0x5007, path = PathString ''HID#VID_3151&PID_5007&MI_00'',
       interface = Some 0, interfaceNumber = None\<rparr>,
      \<lparr>vendorId = 0x046D, productId = 0x5007, path = PathString ''HID#VID_046D&PID_5007&MI_02'',
       interface = Some 2, interfaceNumber = None\<rparr>,
      \<lparr>vendorId = 0x3151, productId = 0x5007, path = PathString ''HID#VID_3151&PID_5007&MI_02'',
       interface = None, interfaceNumber = None\<rparr>]"

text \<open>
  A world with no HID device at all, a configuration that breaks the documented
  preconditions, a configuration asking for a poll every ten seconds, and the state of
  the plugin once a key is shown and the first poll has returned 57.
\<close>

definition absent_world :: hid_world where
  "absent_world = \<lparr>enumeration = Inr [], faults = (\<lambda>i. ready_device [0xF7, 0, 0, 57])\<rparr>"

definition careless_config :: BatteryConfig where
  "careless_config =
     \<lparr>hidPath = Some '' usb-1 '', vid = None, pid = None, pollIntervalSeconds = Fin 30,
      initDelayMs = Some (Fin (- 20)), retryCount = Some (Fin (27 / 10))\<rparr>"

definition cfg10 :: BatteryConfig where
  "cfg10 = DEFAULT_CONFIG \<lparr>pollIntervalSeconds := Fin 10\<rparr>"

definition polling_state :: plugin_state where
  "polling_state =
     pollSettled (Inr 57)
       (onPluginAlive ''dev'' [\<lparr>cid = BATTERY_CID, uid = ''1''\<rparr>] initial_state)"

text \<open>
  The failures of the specification: an error object of the code, \<open>new Error(message)\<close>,
  given by its message, and the aggregate \<open>BatteryReadFailed\<close> that holds another
  failure. \<open>thrown_by\<close> is what a read throws: every \<open>throw\<close> of
  \<open>readBatteryPercentage\<close> throws an object made by \<open>new Error\<close>, and the last one is
  \<open>lastError\<close> itself.
\<close>

datatype failure = ErrorObject string | BatteryReadFailed failure

definition thrown_by :: "(hid_event list \<times> (string + int)) option \<Rightarrow> failure option" where
  "thrown_by res =
     (case res of
        Some (evs, Inl message) \<Rightarrow> Some (ErrorObject message)
      | Some (evs, Inr battery) \<Rightarrow> None
      | None \<Rightarrow> None)"

text \<open>A device whose first answer carries the wrong report id and whose next answers are valid.\<close>

definition garbled_world :: hid_world where
  "garbled_world =
     \<lparr>enumeration = Inr [],
      faults = (\<lambda>i. if i = 1 then ready_device [0x3F, 0, 1, 16] else ready_device [0xF7, 0, 0, 57])\<rparr>"

section \<open>Status equality\<close>

text \<open>
  C6, as stated, ends with "an Unknown status is unequal to everything". The code compares
  two statuses of kind \<open>unknown\<close> as equal: the last \<open>return true\<close> of
  \<open>statusesEqual\<close>.
\<close>

theorem statusesEqual_unknown_counterexample:
  "statusesEqual (Unknown ''waiting'') (Unknown ''waiting'')"
  by (simp add: statusesEqual_def)

text \<open>
  C6 (amended): \<open>statusesEqual\<close> is reflexive and symmetric on all statuses; two
  \<open>Value\<close> statuses are equal iff their values match; two \<open>Error\<close> statuses are equal
  iff both label and detail match; two statuses of different kinds are unequal, so an
  \<open>Unknown\<close> status is unequal to every \<open>Value\<close> and every \<open>Error\<close> status; and
  any two \<open>Unknown\<close> statuses are equal.
\<close>

theorem statusesEqual_relation:
  "statusesEqual a a
   \<and> statusesEqual a b = statusesEqual b a
   \<and> statusesEqual (Value v l) (Value v' l') = (v = v')
   \<and> statusesEqual (Error l d) (Error l' d') = (l = l' \<and> d = d')
   \<and> (kind a \<noteq> kind b \<longrightarrow> \<not> statusesEqual a b)
   \<and> \<not> statusesEqual (Unknown l) (Value v l') \<and> \<not> statusesEqual (Value v l') (Unknown l)
   \<and> \<not> statusesEqual (Unknown l) (Error l' d) \<and> \<not> statusesEqual (Error l' d) (Unknown l)
   \<and> \<not> statusesEqual (Value v l) (Error l' d) \<and> \<not> statusesEqual (Error l' d) (Value v l)
   \<and> statusesEqual (Unknown l) (Unknown l')"
proof -
  have refl: "statusesEqual a a"
    by (cases a) (simp_all add: statusesEqual_def)
  have sym: "statusesEqual a b = statusesEqual b a"
    by (cases a; cases b) (auto simp add: statusesEqual_def)
  have kinds: "kind a \<noteq> kind b \<longrightarrow> \<not> statusesEqual a b"
    by (simp add: statusesEqual_def)
  show ?thesis
    using refl sym kinds by (simp add: statusesEqual_def)
qed

theorem statusesEqual_relation_witness:
  "kind (Value 5 ''5%'') \<noteq> kind (Error ''error'' ''x'')
   \<and> \<not> statusesEqual (Value 5 ''5%'') (Error ''error'' ''x'')
   \<and> \<not> statusesEqual (Value 5 ''5%'') (Value 6 ''6%'')
   \<and> \<not> statusesEqual (Error ''x'' ''a'') (Error ''x'' ''b'')"
  using statusesEqual_relation [of "Value 5 ''5%''" "Error ''error'' ''x''" 5 "''x''" 6 "''x''" "''a''" "''b''"]
  by (simp add: statusesEqual_def)

section \<open>The retry loop\<close>

lemma js_le_mono: "js_le (Fin x) N \<Longrightarrow> y \<le> x \<Longrightarrow> js_le (Fin y) N"
  by (cases N) simp_all

lemma retryLoop_failure_step:
  assumes "js_le (Fin (real a)) N" and "attemptOutcome env p d a = Failure msg"
  shows "retryLoop env p d N a le tr
         = retryLoop env p d N (a + 1) (Some msg) (tr @ attemptEvents env p d a)"
  using assms
  by (subst retryLoop.simps)
     (cases "readAttempt p d a (env a)", simp add: attemptOutcome_def attemptEvents_def)

lemma retryLoop_success_step:
  assumes "js_le (Fin (real a)) N" and "attemptOutcome env p d a = Success v"
  shows "retryLoop env p d N a le tr = Some (tr @ attemptEvents env p d a, Inr v)"
  using assms
  by (subst retryLoop.simps)
     (cases "readAttempt p d a (env a)", simp add: attemptOutcome_def attemptEvents_def)

lemma retryLoop_exit:
  assumes "\<not> js_le (Fin (real a)) N"
  shows "retryLoop env p d N a le tr
         = Some (tr, Inl (case le of Some msg \<Rightarrow> msg | None \<Rightarrow> ''Unable to read battery percentage''))"
  using assms by (subst retryLoop.simps) simp

lemma retryLoop_failures:
  assumes "\<forall>i. a \<le> i \<and> i < a + k \<longrightarrow> is_failure (attemptOutcome env p d i)"
      and "0 < k \<longrightarrow> js_le (Fin (real (a + k - 1))) N"
  shows "retryLoop env p d N a le tr
         = retryLoop env p d N (a + k)
             (if k = 0 then le else failure_message (attemptOutcome env p d (a + k - 1)))
             (tr @ concat (map (attemptEvents env p d) [a..<a + k]))"
  using assms
proof (induction k arbitrary: a le tr)
  case 0
  then show ?case by simp
next
  case (Suc k)
  from Suc.prems have fa: "is_failure (attemptOutcome env p d a)" by simp
  then obtain msg where msg: "attemptOutcome env p d a = Failure msg"
    by (cases "attemptOutcome env p d a") simp_all
  from Suc.prems have top: "js_le (Fin (real (a + k))) N" by simp
  then have here: "js_le (Fin (real a)) N" by (rule js_le_mono) simp
  have step: "retryLoop env p d N a le tr
              = retryLoop env p d N (a + 1) (Some msg) (tr @ attemptEvents env p d a)"
    by (rule retryLoop_failure_step [OF here msg])
  have rest: "\<forall>i. a + 1 \<le> i \<and> i < a + 1 + k \<longrightarrow> is_failure (attemptOutcome env p d i)"
    using Suc.prems(1) by simp
  have bound: "0 < k \<longrightarrow> js_le (Fin (real (a + 1 + k - 1))) N"
    using top by simp
  have ih: "retryLoop env p d N (a + 1) (Some msg) (tr @ attemptEvents env p d a)
            = retryLoop env p d N (a + 1 + k)
                (if k = 0 then Some msg else failure_message (attemptOutcome env p d (a + 1 + k - 1)))
                ((tr @ attemptEvents env p d a) @ concat (map (attemptEvents env p d) [a + 1..<a + 1 + k]))"
    by (rule Suc.IH [OF rest bound])
  have upt: "[a..<a + Suc k] = a # [a + 1..<a + 1 + k]"
    by (simp add: upt_rec)
  show ?case
    unfolding step ih upt using msg by (cases k) simp_all
qed

lemma attempts_made_append: "attempts_made (xs @ ys) = attempts_made xs + attempts_made ys"
  by (simp add: attempts_made_def)

lemma attempts_made_readAttempt: "attempts_made (fst (readAttempt p d a f)) = 1"
  by (simp add: readAttempt_def attempts_made_def safeClose_def wait_def Let_def
      split: option.splits sum.splits)

lemma attempts_made_attempts:
  "attempts_made (concat (map (attemptEvents env p d) [a..<a + k])) = k"
proof (induction k)
  case 0
  then show ?case by (simp add: attempts_made_def)
next
  case (Suc k)
  have "[a..<a + Suc k] = [a..<a + k] @ [a + k]" by simp
  then show ?case
    using Suc by (simp add: attempts_made_append attemptEvents_def attempts_made_readAttempt)
qed

lemma attempts_made_resolve:
  "attempts_made (fst (resolveTargetPath w config)) = 0"
  by (simp add: resolveTargetPath_def attempts_made_def Let_def split: sum.splits option.splits)

lemma readAttempt_valid:
  assumes "open_throws f = None" and "send_throws f = None"
      and "report f = Inr (Some bs)" and "4 \<le> length bs" and "bs ! 0 = 0xF7"
  shows "snd (readAttempt p d a f) = Success (min 100 (max 0 (uint (bs ! 3))))"
  using assms
  by (auto simp add: readAttempt_def Let_def js_index_def ANGRY_MIAO_REPORT_ID_def)

lemma normRetryCount_cases:
  "normRetryCount config = PosInf \<or> (\<exists>n::nat. 1 \<le> n \<and> normRetryCount config = Fin (real n))"
proof (cases "retryCount config")
  case None
  then show ?thesis by (auto simp add: normRetryCount_def trunc_real_def intro: exI [of _ 1])
next
  case (Some x)
  show ?thesis
  proof (cases x)
    case (Fin r)
    let ?m = "max 1 (trunc_real (if r = 0 then 1 else r))"
    have "normRetryCount config = Fin (real_of_int ?m)"
      using Some Fin by (simp add: normRetryCount_def max_def)
    moreover have "1 \<le> nat ?m" and "real_of_int ?m = real (nat ?m)" by simp_all
    ultimately show ?thesis by metis
  qed (use Some in \<open>auto simp add: normRetryCount_def trunc_real_def intro: exI [of _ 1]\<close>)
qed

lemma pinned_path: "resolveTargetPath w pinned_config = ([], Inr ''usb-1'')"
  by (simp add: resolveTargetPath_def pinned_config_def js_trim_def is_js_space_def)

lemma pinned_norm: "normRetryCount pinned_config = Fin 3" "normInitDelay pinned_config = Fin 50"
  by (simp_all add: normRetryCount_def normInitDelay_def pinned_config_def trunc_real_def)

text \<open>
  C1: for every configuration whose normalised \<open>retryCount\<close> is \<open>N\<close> and every fault
  sequence in which the attempts \<open>1..k\<close> fail, \<open>k < N\<close>, and attempt \<open>k + 1\<close> finds a
  valid report, \<open>readBatteryPercentage\<close> returns the clamped battery value of that
  attempt; the events are those of the attempts \<open>1..k + 1\<close> and nothing after them, so
  exactly \<open>k + 1\<close> attempts are made.
\<close>

theorem read_returns_first_success:
  assumes path: "resolveTargetPath w config = (evs0, Inr p)"
      and fails: "\<forall>i. 1 \<le> i \<and> i \<le> k \<longrightarrow> is_failure (attemptOutcome (faults w) p (normInitDelay config) i)"
      and within: "js_le (Fin (real (k + 1))) (normRetryCount config)"
      and opened: "open_throws (faults w (k + 1)) = None"
      and sent: "send_throws (faults w (k + 1)) = None"
      and data: "report (faults w (k + 1)) = Inr (Some bs)"
      and long: "4 \<le> length bs"
      and ident: "bs ! 0 = 0xF7"
  shows "readBatteryPercentage w config
           = Some (evs0 @ concat (map (attemptEvents (faults w) p (normInitDelay config)) [1..<k + 2]),
                   Inr (min 100 (max 0 (uint (bs ! 3)))))
         \<and> attempts_made (evs0 @ concat (map (attemptEvents (faults w) p (normInitDelay config)) [1..<k + 2]))
             = k + 1"
proof -
  let ?d = "normInitDelay config" and ?N = "normRetryCount config" and ?env = "faults w"
  have start: "readBatteryPercentage w config = retryLoop ?env p ?d ?N 1 None evs0"
    by (simp add: readBatteryPercentage_def path)
  have fs: "\<forall>i. 1 \<le> i \<and> i < 1 + k \<longrightarrow> is_failure (attemptOutcome ?env p ?d i)"
    using fails by simp
  have bound: "0 < k \<longrightarrow> js_le (Fin (real (1 + k - 1))) ?N"
    using js_le_mono [OF within, of "real k"] by simp
  have run: "retryLoop ?env p ?d ?N 1 None evs0
             = retryLoop ?env p ?d ?N (1 + k)
                 (if k = 0 then None else failure_message (attemptOutcome ?env p ?d (1 + k - 1)))
                 (evs0 @ concat (map (attemptEvents ?env p ?d) [1..<1 + k]))"
    by (rule retryLoop_failures [OF fs bound])
  have win: "attemptOutcome ?env p ?d (1 + k) = Success (min 100 (max 0 (uint (bs ! 3))))"
    using readAttempt_valid [OF _ _ _ long ident, of "?env (k + 1)" p ?d "k + 1"] opened sent data
    by (simp add: attemptOutcome_def)
  have within': "js_le (Fin (real (1 + k))) ?N"
    using within by (simp add: add.commute)
  have upt: "[1..<k + 2] = [1..<1 + k] @ [1 + k]"
    by simp
  have result: "readBatteryPercentage w config
           = Some (evs0 @ concat (map (attemptEvents ?env p ?d) [1..<k + 2]),
                   Inr (min 100 (max 0 (uint (bs ! 3)))))"
    unfolding start run upt
    by (subst retryLoop_success_step [OF within' win]) simp
  have "attempts_made (fst (resolveTargetPath w config)) = 0"
    by (rule attempts_made_resolve)
  then have zero: "attempts_made evs0 = 0"
    by (simp add: path)
  have count: "attempts_made (evs0 @ concat (map (attemptEvents ?env p ?d) [1..<k + 2])) = k + 1"
    using attempts_made_attempts [of ?env p ?d 1 "k + 1"] zero
    by (simp add: attempts_made_append)
  show ?thesis
    using result count by simp
qed

theorem read_returns_first_success_witness:
  "readBatteryPercentage flaky_world pinned_config
     = Some ([OpenDevice ''usb-1'' False, OpenDevice ''usb-1'' False, OpenDevice ''usb-1'' True,
              SendFeatureReport ANGRY_MIAO_INIT_FEATURE True, SetTimeout (Fin 50),
              GetFeatureReport 247 65, CloseDevice False, CloseDevice False],
             Inr 57)
   \<and> attempts_made [OpenDevice ''usb-1'' False, OpenDevice ''usb-1'' False, OpenDevice ''usb-1'' True,
              SendFeatureReport ANGRY_MIAO_INIT_FEATURE True, SetTimeout (Fin 50),
              GetFeatureReport 247 65, CloseDevice False, CloseDevice False] = 3"
proof -
  let ?bs = "[0xF7, 0, 0, 57] :: byte list"
  have fails: "\<forall>i. 1 \<le> i \<and> i \<le> 2 \<longrightarrow>
      is_failure (attemptOutcome (faults flaky_world) ''usb-1'' (normInitDelay pinned_config) i)"
    by (simp add: attemptOutcome_def flaky_world_def busy_device_def readAttempt_def)
  have within: "js_le (Fin (real (2 + 1))) (normRetryCount pinned_config)"
    by (simp add: pinned_norm)
  have opened: "open_throws (faults flaky_world (2 + 1)) = None"
    and sent: "send_throws (faults flaky_world (2 + 1)) = None"
    and data: "report (faults flaky_world (2 + 1)) = Inr (Some ?bs)"
    by (simp_all add: flaky_world_def ready_device_def)
  have long: "4 \<le> length ?bs" and ident: "?bs ! 0 = 0xF7"
    by simp_all
  have evs: "concat (map (attemptEvents (faults flaky_world) ''usb-1'' (normInitDelay pinned_config)) [1..<2 + 2])
      = [OpenDevice ''usb-1'' False, OpenDevice ''usb-1'' False, OpenDevice ''usb-1'' True,
              SendFeatureReport ANGRY_MIAO_INIT_FEATURE True, SetTimeout (Fin 50),
              GetFeatureReport 247 65, CloseDevice False, CloseDevice False]"
    by (simp add: upt_rec attemptEvents_def flaky_world_def busy_device_def ready_device_def
        readAttempt_def pinned_norm safeClose_def wait_def js_index_def Let_def
        ANGRY_MIAO_REPORT_ID_def DEFAULT_BUFFER_LENGTH_def)
  show ?thesis
    using read_returns_first_success [OF pinned_path fails within opened sent data long ident] evs
    by simp
qed

lemma dead_world_outcomes:
  "attemptOutcome (faults dead_world) ''usb-1'' (Fin 50) 1
     = Failure ''Unable to open HID device: busy''"
  "attemptOutcome (faults dead_world) ''usb-1'' (Fin 50) 2
     = Failure ''Failed to send init feature (attempt 2): stalled''"
  "attemptOutcome (faults dead_world) ''usb-1'' (Fin 50) 3
     = Failure ''Unexpected feature report: f70000''"
  by (simp_all add: attemptOutcome_def dead_world_def busy_device_def ready_device_def
      readAttempt_def Let_def digits_of.simps digit_char_def char_of_def bit_Suc_0_iff
      hex_of_bytes_def)

lemma dead_world_events:
  "concat (map (attemptEvents (faults dead_world) ''usb-1'' (Fin 50)) [1..<1 + 3])
   = [OpenDevice ''usb-1'' False,
      OpenDevice ''usb-1'' True, SendFeatureReport ANGRY_MIAO_INIT_FEATURE False,
      CloseDevice False, SetTimeout (Fin 50),
      OpenDevice ''usb-1'' True, SendFeatureReport ANGRY_MIAO_INIT_FEATURE True,
      SetTimeout (Fin 50), GetFeatureReport 247 65, CloseDevice False, CloseDevice False]"
  by (simp add: upt_rec attemptEvents_def dead_world_def busy_device_def ready_device_def
      readAttempt_def safeClose_def wait_def js_index_def Let_def
      ANGRY_MIAO_REPORT_ID_def DEFAULT_BUFFER_LENGTH_def)

lemma dead_world_read:
  "readBatteryPercentage dead_world pinned_config
     = Some ([OpenDevice ''usb-1'' False,
              OpenDevice ''usb-1'' True, SendFeatureReport ANGRY_MIAO_INIT_FEATURE False,
              CloseDevice False, SetTimeout (Fin 50),
              OpenDevice ''usb-1'' True, SendFeatureReport ANGRY_MIAO_INIT_FEATURE True,
              SetTimeout (Fin 50), GetFeatureReport 247 65, CloseDevice False, CloseDevice False],
             Inl ''Unexpected feature report: f70000'')"
proof -
  let ?env = "faults dead_world"
  have fails: "\<forall>i. 1 \<le> i \<and> i < 1 + 3 \<longrightarrow> is_failure (attemptOutcome ?env ''usb-1'' (Fin 50) i)"
  proof (intro allI impI)
    fix i :: nat
    assume "1 \<le> i \<and> i < 1 + 3"
    then have "i = 1 \<or> i = 2 \<or> i = 3" by auto
    then show "is_failure (attemptOutcome ?env ''usb-1'' (Fin 50) i)"
      using dead_world_outcomes by auto
  qed
  have bound: "0 < (3::nat) \<longrightarrow> js_le (Fin (real (1 + 3 - 1))) (Fin 3)"
    by simp
  have run: "retryLoop ?env ''usb-1'' (Fin 50) (Fin 3) 1 None []
             = retryLoop ?env ''usb-1'' (Fin 50) (Fin 3) (1 + 3)
                 (if (3::nat) = 0 then None
                  else failure_message (attemptOutcome ?env ''usb-1'' (Fin 50) (1 + 3 - 1)))
                 ([] @ concat (map (attemptEvents ?env ''usb-1'' (Fin 50)) [1..<1 + 3]))"
    by (rule retryLoop_failures [OF fails bound])
  have stop: "\<not> js_le (Fin (real (1 + 3))) (Fin 3)"
    by simp
  have "readBatteryPercentage dead_world pinned_config
        = retryLoop ?env ''usb-1'' (Fin 50) (Fin 3) 1 None []"
    by (simp add: readBatteryPercentage_def pinned_path pinned_norm)
  also have "\<dots> = Some (concat (map (attemptEvents ?env ''usb-1'' (Fin 50)) [1..<1 + 3]),
                        Inl ''Unexpected feature report: f70000'')"
    unfolding run by (subst retryLoop_exit [OF stop]) (use dead_world_outcomes(3) in simp)
  finally show ?thesis
    unfolding dead_world_events .
qed

text \<open>
  C2, as stated, ends with the last error wrapped as \<open>BatteryReadFailed\<close>. The code has no
  such wrapper: \<open>throw lastError\<close> throws the error object that the last attempt stored.
  Here three attempts fail, and what the read throws is the error of the third attempt, not
  an aggregate holding it.
\<close>

theorem read_failure_not_wrapped_counterexample:
  "attemptOutcome (faults dead_world) ''usb-1'' (Fin 50) 3
     = Failure ''Unexpected feature report: f70000''
   \<and> thrown_by (readBatteryPercentage dead_world pinned_config)
       = Some (ErrorObject ''Unexpected feature report: f70000'')
   \<and> thrown_by (readBatteryPercentage dead_world pinned_config)
       \<noteq> Some (BatteryReadFailed (ErrorObject ''Unexpected feature report: f70000''))"
  by (simp add: dead_world_outcomes dead_world_read thrown_by_def)

text \<open>
  C2 (amended): for every configuration whose normalised \<open>retryCount\<close> is \<open>N\<close>, if all
  \<open>N\<close> attempts fail, \<open>readBatteryPercentage\<close> makes exactly \<open>N\<close> attempts and throws
  the error recorded by attempt \<open>N\<close>, whatever the earlier attempts recorded; that error
  is thrown as it is, an \<open>Error\<close> with the message of the last attempt.
\<close>

theorem read_fails_with_last_error:
  assumes path: "resolveTargetPath w config = (evs0, Inr p)"
      and count: "normRetryCount config = Fin (real N)"
      and fails: "\<forall>i. 1 \<le> i \<and> i \<le> N \<longrightarrow> is_failure (attemptOutcome (faults w) p (normInitDelay config) i)"
      and last: "attemptOutcome (faults w) p (normInitDelay config) N = Failure e"
  shows "readBatteryPercentage w config
           = Some (evs0 @ concat (map (attemptEvents (faults w) p (normInitDelay config)) [1..<N + 1]),
                   Inl e)
         \<and> attempts_made (evs0 @ concat (map (attemptEvents (faults w) p (normInitDelay config)) [1..<N + 1]))
             = N
         \<and> thrown_by (readBatteryPercentage w config) = Some (ErrorObject e)"
proof -
  let ?d = "normInitDelay config" and ?env = "faults w"
  have pos: "1 \<le> N"
    using normRetryCount_cases [of config] count by auto
  have start: "readBatteryPercentage w config = retryLoop ?env p ?d (Fin (real N)) 1 None evs0"
    by (simp add: readBatteryPercentage_def path count)
  have fs: "\<forall>i. 1 \<le> i \<and> i < 1 + N \<longrightarrow> is_failure (attemptOutcome ?env p ?d i)"
    using fails by simp
  have bound: "0 < N \<longrightarrow> js_le (Fin (real (1 + N - 1))) (Fin (real N))"
    by simp
  have run: "retryLoop ?env p ?d (Fin (real N)) 1 None evs0
             = retryLoop ?env p ?d (Fin (real N)) (1 + N)
                 (if N = 0 then None else failure_message (attemptOutcome ?env p ?d (1 + N - 1)))
                 (evs0 @ concat (map (attemptEvents ?env p ?d) [1..<1 + N]))"
    by (rule retryLoop_failures [OF fs bound])
  have stop: "\<not> js_le (Fin (real (1 + N))) (Fin (real N))"
    by simp
  have result: "readBatteryPercentage w config
           = Some (evs0 @ concat (map (attemptEvents ?env p ?d) [1..<N + 1]), Inl e)"
    unfolding start run
    by (subst retryLoop_exit [OF stop]) (use pos last in \<open>simp add: add.commute\<close>)
  have "attempts_made (fst (resolveTargetPath w config)) = 0"
    by (rule attempts_made_resolve)
  then have zero: "attempts_made evs0 = 0"
    by (simp add: path)
  have made: "attempts_made (evs0 @ concat (map (attemptEvents ?env p ?d) [1..<N + 1])) = N"
    using attempts_made_attempts [of ?env p ?d 1 N] zero
    by (simp add: attempts_made_append add.commute)
  have thrown: "thrown_by (readBatteryPercentage w config) = Some (ErrorObject e)"
    by (simp add: result thrown_by_def)
  show ?thesis
    using result made thrown by simp
qed

theorem read_fails_with_last_error_witness:
  "readBatteryPercentage dead_world pinned_config
     = Some ([OpenDevice ''usb-1'' False,
              OpenDevice ''usb-1'' True, SendFeatureReport ANGRY_MIAO_INIT_FEATURE False,
              CloseDevice False, SetTimeout (Fin 50),
              OpenDevice ''usb-1'' True, SendFeatureReport ANGRY_MIAO_INIT_FEATURE True,
              SetTimeout (Fin 50), GetFeatureReport 247 65, CloseDevice False, CloseDevice False],
             Inl ''Unexpected feature report: f70000'')
   \<and> thrown_by (readBatteryPercentage dead_world pinned_config)
       = Some (ErrorObject ''Unexpected feature report: f70000'')"
proof -
  have count: "normRetryCount pinned_config = Fin (real 3)"
    by (simp add: pinned_norm)
  have fails: "\<forall>i. 1 \<le> i \<and> i \<le> 3 \<longrightarrow>
      is_failure (attemptOutcome (faults dead_world) ''usb-1'' (normInitDelay pinned_config) i)"
  proof (intro allI impI)
    fix i :: nat
    assume "1 \<le> i \<and> i \<le> 3"
    then have "i = 1 \<or> i = 2 \<or> i = 3" by auto
    then show "is_failure (attemptOutcome (faults dead_world) ''usb-1'' (normInitDelay pinned_config) i)"
      using dead_world_outcomes by (auto simp add: pinned_norm)
  qed
  have last: "attemptOutcome (faults dead_world) ''usb-1'' (normInitDelay pinned_config) 3
              = Failure ''Unexpected feature report: f70000''"
    using dead_world_outcomes(3) by (simp add: pinned_norm)
  have evs: "concat (map (attemptEvents (faults dead_world) ''usb-1'' (normInitDelay pinned_config)) [1..<3 + 1])
      = [OpenDevice ''usb-1'' False,
              OpenDevice ''usb-1'' True, SendFeatureReport ANGRY_MIAO_INIT_FEATURE False,
              CloseDevice False, SetTimeout (Fin 50),
              OpenDevice ''usb-1'' True, SendFeatureReport ANGRY_MIAO_INIT_FEATURE True,
              SetTimeout (Fin 50), GetFeatureReport 247 65, CloseDevice False, CloseDevice False]"
    using dead_world_events by (simp add: pinned_norm)
  show ?thesis
    using read_fails_with_last_error [OF pinned_path count fails last] evs
    by (simp add: thrown_by_def)
qed

section \<open>One read attempt\<close>

lemma readAttempt_invalid:
  assumes "open_throws f = None" and "send_throws f = None" and "report f = Inr data"
      and "\<not> valid_report data"
  shows "readAttempt p d a f = (parse_failure_events p d f, Failure (parse_error data))"
proof (cases data)
  case None
  then show ?thesis
    using assms
    by (simp add: readAttempt_def Let_def parse_failure_events_def parse_error_def safeClose_def
        ANGRY_MIAO_REPORT_ID_def DEFAULT_BUFFER_LENGTH_def)
next
  case (Some bs)
  then have "length bs < 4 \<or> js_index bs 0 \<noteq> Some ANGRY_MIAO_REPORT_ID"
    using assms(4) by (auto simp add: valid_report_def js_index_def ANGRY_MIAO_REPORT_ID_def)
  then show ?thesis
    using assms Some
    by (simp add: readAttempt_def Let_def parse_failure_events_def parse_error_def safeClose_def
        ANGRY_MIAO_REPORT_ID_def DEFAULT_BUFFER_LENGTH_def)
qed

text \<open>
  C4: in every attempt that reaches the telemetry read, the feature report requested with
  id \<open>0xF7\<close> and length 65 passes validation exactly when it is present, has at least
  four bytes and starts with \<open>0xF7\<close>. A report that fails validation makes the attempt
  fail with the message "Unexpected feature report: " followed by the payload in hex, or
  by "null" when the report is absent; the error is stored, not thrown. The attempt opens
  the device once and counts for one: the loop goes on with the next attempt number; when
  the attempt was the last one allowed, the read ends there, throwing that error after
  the events of that attempt; when the next attempt is allowed and finds a valid report,
  the read returns its value after the events of these two attempts.
\<close>

theorem malformed_report_fails_one_attempt:
  assumes opened: "open_throws (env a) = None"
      and sent: "send_throws (env a) = None"
      and got: "report (env a) = Inr data"
  shows "(valid_report data \<longrightarrow> \<not> is_failure (attemptOutcome env p d a))
       \<and> (\<not> valid_report data \<longrightarrow>
            readAttempt p d a (env a) = (parse_failure_events p d (env a), Failure (parse_error data))
            \<and> attempts_made (parse_failure_events p d (env a)) = 1
            \<and> (js_le (Fin (real a)) N \<longrightarrow>
                 retryLoop env p d N a le tr
                 = retryLoop env p d N (a + 1) (Some (parse_error data))
                     (tr @ parse_failure_events p d (env a)))
            \<and> (js_le (Fin (real a)) N \<and> \<not> js_le (Fin (real (a + 1))) N \<longrightarrow>
                 retryLoop env p d N a le tr
                 = Some (tr @ parse_failure_events p d (env a), Inl (parse_error data)))
            \<and> (js_le (Fin (real (a + 1))) N
                 \<and> open_throws (env (a + 1)) = None \<and> send_throws (env (a + 1)) = None
                 \<and> report (env (a + 1)) = Inr (Some bs) \<and> 4 \<le> length bs \<and> bs ! 0 = 0xF7 \<longrightarrow>
                 retryLoop env p d N a le tr
                 = Some (tr @ parse_failure_events p d (env a) @ attemptEvents env p d (a + 1),
                         Inr (min 100 (max 0 (uint (bs ! 3)))))
                 \<and> attempts_made (parse_failure_events p d (env a) @ attemptEvents env p d (a + 1)) = 2))"
proof (cases "valid_report data")
  case True
  then obtain cs where cs: "data = Some cs" "4 \<le> length cs" "cs ! 0 = 0xF7"
    by (auto simp add: valid_report_def split: option.splits)
  have "attemptOutcome env p d a = Success (min 100 (max 0 (uint (cs ! 3))))"
    using readAttempt_valid [OF opened sent _ cs(2) cs(3)] got cs(1)
    by (simp add: attemptOutcome_def)
  then show ?thesis using True by simp
next
  case False
  have att: "readAttempt p d a (env a) = (parse_failure_events p d (env a), Failure (parse_error data))"
    by (rule readAttempt_invalid [OF opened sent got False])
  have out: "attemptOutcome env p d a = Failure (parse_error data)"
    by (simp add: attemptOutcome_def att)
  have evs: "attemptEvents env p d a = parse_failure_events p d (env a)"
    by (simp add: attemptEvents_def att)
  have one: "attempts_made (parse_failure_events p d (env a)) = 1"
    using attempts_made_readAttempt [of p d a "env a"] by (simp add: att)
  have step: "retryLoop env p d N a le tr
              = retryLoop env p d N (a + 1) (Some (parse_error data))
                  (tr @ parse_failure_events p d (env a))"
    if here: "js_le (Fin (real a)) N"
    using retryLoop_failure_step [OF here out, of le tr] by (simp add: evs)
  have final: "retryLoop env p d N a le tr
               = Some (tr @ parse_failure_events p d (env a), Inl (parse_error data))"
    if here: "js_le (Fin (real a)) N" and stop: "\<not> js_le (Fin (real (a + 1))) N"
    unfolding step [OF here] by (subst retryLoop_exit [OF stop]) simp
  have next_ok: "retryLoop env p d N a le tr
                 = Some (tr @ parse_failure_events p d (env a) @ attemptEvents env p d (a + 1),
                         Inr (min 100 (max 0 (uint (bs ! 3)))))
                 \<and> attempts_made (parse_failure_events p d (env a) @ attemptEvents env p d (a + 1)) = 2"
    if more: "js_le (Fin (real (a + 1))) N"
      and o: "open_throws (env (a + 1)) = None" and s: "send_throws (env (a + 1)) = None"
      and r: "report (env (a + 1)) = Inr (Some bs)" and l: "4 \<le> length bs" and i: "bs ! 0 = 0xF7"
  proof -
    have here: "js_le (Fin (real a)) N"
      by (rule js_le_mono [OF more]) simp
    have win: "attemptOutcome env p d (a + 1) = Success (min 100 (max 0 (uint (bs ! 3))))"
      using readAttempt_valid [OF o s r l i, of p d "a + 1"] by (simp add: attemptOutcome_def)
    have "retryLoop env p d N a le tr
          = Some ((tr @ parse_failure_events p d (env a)) @ attemptEvents env p d (a + 1),
                  Inr (min 100 (max 0 (uint (bs ! 3)))))"
      unfolding step [OF here] by (rule retryLoop_success_step [OF more win])
    moreover have "attempts_made (attemptEvents env p d (a + 1)) = 1"
      by (simp add: attemptEvents_def attempts_made_readAttempt)
    ultimately show ?thesis
      using one by (simp add: attempts_made_append)
  qed
  show ?thesis
    using False att one step final next_ok by blast
qed

lemma steady_read:
  "readBatteryPercentage steady_world pinned_config
     = Some ([OpenDevice ''usb-1'' True, SendFeatureReport ANGRY_MIAO_INIT_FEATURE True,
              SetTimeout (Fin 50), GetFeatureReport 247 65, CloseDevice False, CloseDevice False],
             Inr 100)"
proof -
  have first: "js_le (Fin (real 1)) (Fin 3)" by simp
  have att: "readAttempt ''usb-1'' (Fin 50) 1 (faults steady_world 1)
             = ([OpenDevice ''usb-1'' True, SendFeatureReport ANGRY_MIAO_INIT_FEATURE True,
              SetTimeout (Fin 50), GetFeatureReport 247 65, CloseDevice False, CloseDevice False],
                Success 100)"
    by (simp add: steady_world_def ready_device_def readAttempt_def safeClose_def wait_def
        js_index_def Let_def ANGRY_MIAO_REPORT_ID_def DEFAULT_BUFFER_LENGTH_def)
  have out: "attemptOutcome (faults steady_world) ''usb-1'' (Fin 50) 1 = Success 100"
    using att by (simp add: attemptOutcome_def)
  show ?thesis
    using retryLoop_success_step [OF first out, of None "[]"] att
    by (simp add: readBatteryPercentage_def pinned_path pinned_norm attemptEvents_def)
qed

lemma garbled_parse:
  "parse_error (Some [0x3F, 0, 1, 16]) = ''Unexpected feature report: 3f000110''"
  "parse_error (Some [0xF7, 0, 0]) = ''Unexpected feature report: f70000''"
  "parse_error None = ''Unexpected feature report: null''"
  by (simp_all add: parse_error_def hex_of_bytes_def digit_char_def char_of_def bit_Suc_0_iff)

theorem malformed_report_fails_one_attempt_witness:
  "\<not> valid_report (Some [0xF7, 0, 0])
   \<and> readAttempt ''usb-1'' (Fin 50) 3 (faults dead_world 3)
       = ([OpenDevice ''usb-1'' True, SendFeatureReport ANGRY_MIAO_INIT_FEATURE True,
           SetTimeout (Fin 50), GetFeatureReport 247 65, CloseDevice False, CloseDevice False],
          Failure ''Unexpected feature report: f70000'')
   \<and> retryLoop (faults dead_world) ''usb-1'' (Fin 50) (Fin 3) 3 None []
       = Some ([OpenDevice ''usb-1'' True, SendFeatureReport ANGRY_MIAO_INIT_FEATURE True,
                SetTimeout (Fin 50), GetFeatureReport 247 65, CloseDevice False, CloseDevice False],
               Inl ''Unexpected feature report: f70000'')
   \<and> \<not> valid_report (Some [0x3F, 0, 1, 16])
   \<and> retryLoop (faults garbled_world) ''usb-1'' (Fin 50) (Fin 3) 1 None []
       = Some ([OpenDevice ''usb-1'' True, SendFeatureReport ANGRY_MIAO_INIT_FEATURE True,
                SetTimeout (Fin 50), GetFeatureReport 247 65, CloseDevice False, CloseDevice False,
                OpenDevice ''usb-1'' True, SendFeatureReport ANGRY_MIAO_INIT_FEATURE True,
                SetTimeout (Fin 50), GetFeatureReport 247 65, CloseDevice False, CloseDevice False],
               Inr 57)"
proof -
  have opened: "open_throws (faults dead_world 3) = None"
    and sent: "send_throws (faults dead_world 3) = None"
    and got: "report (faults dead_world 3) = Inr (Some [0xF7, 0, 0])"
    by (simp_all add: dead_world_def ready_device_def)
  have bad: "\<not> valid_report (Some [0xF7, 0, 0 :: byte])"
    by (simp add: valid_report_def)
  have evs: "parse_failure_events ''usb-1'' (Fin 50) f
             = [OpenDevice ''usb-1'' True, SendFeatureReport ANGRY_MIAO_INIT_FEATURE True,
                SetTimeout (Fin 50), GetFeatureReport 247 65,
                CloseDevice (close_throws f), CloseDevice (close_throws f)]" for f
    by (simp add: parse_failure_events_def wait_def)
  have quiet: "close_throws (faults dead_world 3) = False" "close_throws (faults garbled_world 1) = False"
    by (simp_all add: dead_world_def garbled_world_def ready_device_def)
  have last: "js_le (Fin (real 3)) (Fin 3) \<and> \<not> js_le (Fin (real (3 + 1))) (Fin 3)"
    by simp
  note short = malformed_report_fails_one_attempt
            [where env = "faults dead_world" and a = 3 and p = "''usb-1''" and d = "Fin 50"
               and N = "Fin 3" and le = None and tr = "[]", OF opened sent got]
  have part1: "readAttempt ''usb-1'' (Fin 50) 3 (faults dead_world 3)
       = (parse_failure_events ''usb-1'' (Fin 50) (faults dead_world 3),
          Failure (parse_error (Some [0xF7, 0, 0])))"
    and part2: "retryLoop (faults dead_world) ''usb-1'' (Fin 50) (Fin 3) 3 None []
       = Some ([] @ parse_failure_events ''usb-1'' (Fin 50) (faults dead_world 3),
               Inl (parse_error (Some [0xF7, 0, 0])))"
    using short bad last by blast+
  have opened': "open_throws (faults garbled_world 1) = None"
    and sent': "send_throws (faults garbled_world 1) = None"
    and got': "report (faults garbled_world 1) = Inr (Some [0x3F, 0, 1, 16])"
    by (simp_all add: garbled_world_def ready_device_def)
  have bad': "\<not> valid_report (Some [0x3F, 0, 1, 16 :: byte])"
    by (simp add: valid_report_def)
  have after: "js_le (Fin (real (1 + 1))) (Fin 3)
                 \<and> open_throws (faults garbled_world (1 + 1)) = None
                 \<and> send_throws (faults garbled_world (1 + 1)) = None
                 \<and> report (faults garbled_world (1 + 1)) = Inr (Some [0xF7, 0, 0, 57])
                 \<and> 4 \<le> length [0xF7, 0, 0, 57 :: byte] \<and> [0xF7, 0, 0, 57 :: byte] ! 0 = 0xF7"
    by (simp add: garbled_world_def ready_device_def)
  note wrong_id = malformed_report_fails_one_attempt
            [where env = "faults garbled_world" and a = 1 and p = "''usb-1''" and d = "Fin 50"
               and N = "Fin 3" and le = None and tr = "[]" and bs = "[0xF7, 0, 0, 57]",
             OF opened' sent' got']
  have part3: "retryLoop (faults garbled_world) ''usb-1'' (Fin 50) (Fin 3) 1 None []
                 = Some ([] @ parse_failure_events ''usb-1'' (Fin 50) (faults garbled_world 1)
                           @ attemptEvents (faults garbled_world) ''usb-1'' (Fin 50) (1 + 1),
                         Inr (min 100 (max 0 (uint ([0xF7, 0, 0, 57 :: byte] ! 3)))))"
    using wrong_id bad' after by blast
  have second: "attemptEvents (faults garbled_world) ''usb-1'' (Fin 50) (1 + 1)
                = [OpenDevice ''usb-1'' True, SendFeatureReport ANGRY_MIAO_INIT_FEATURE True,
                   SetTimeout (Fin 50), GetFeatureReport 247 65, CloseDevice False, CloseDevice False]"
    by (simp add: attemptEvents_def garbled_world_def ready_device_def readAttempt_def
        safeClose_def wait_def js_index_def Let_def ANGRY_MIAO_REPORT_ID_def
        DEFAULT_BUFFER_LENGTH_def)
  show ?thesis
    using bad bad' part1 part2 part3 quiet second
    by (simp add: evs garbled_parse)
qed

lemma pollSettled_value:
  "kind (latestStatus (pollSettled (Inr v) s)) = ''value''
   \<and> value_of (latestStatus (pollSettled (Inr v) s)) = v"
  by (cases "latestStatus s")
     (simp_all add: pollSettled_def Let_def pollAndUpdate_def renderAllKeys_def statusesEqual_def)

lemma pollSettled_commit:
  assumes "awaitedForceRedraw s \<or> \<not> statusesEqual (Value v (int_toString 10 v @ ''%'')) (latestStatus s)"
  shows "latestStatus (pollSettled (Inr v) s) = Value v (int_toString 10 v @ ''%'')"
  using assms
  by (auto simp add: pollSettled_def Let_def pollAndUpdate_def renderAllKeys_def)

text \<open>
  C5: for every valid feature report the attempt returns the byte at offset 3 clamped to
  \<open>[0, 100]\<close>: 57 yields 57 and 250 yields 100. When the poll settles with that value
  the current status is a \<open>Value\<close> status of that value, and it is the freshly built one
  whenever the poll was a forced redraw or the value differs from the cached status.
\<close>

theorem battery_value_clamped:
  assumes opened: "open_throws f = None"
      and sent: "send_throws f = None"
      and data: "report f = Inr (Some bs)"
      and long: "4 \<le> length bs"
      and ident: "bs ! 0 = 0xF7"
      and v: "v = min 100 (max 0 (uint (bs ! 3)))"
  shows "snd (readAttempt p d a f) = Success v
       \<and> 0 \<le> v \<and> v \<le> 100
       \<and> (bs ! 3 = 57 \<longrightarrow> v = 57)
       \<and> (bs ! 3 = 250 \<longrightarrow> v = 100)
       \<and> kind (latestStatus (pollSettled (Inr v) s)) = ''value''
       \<and> value_of (latestStatus (pollSettled (Inr v) s)) = v
       \<and> (awaitedForceRedraw s \<or> \<not> statusesEqual (Value v (int_toString 10 v @ ''%'')) (latestStatus s)
            \<longrightarrow> latestStatus (pollSettled (Inr v) s) = Value v (int_toString 10 v @ ''%''))"
proof -
  have out: "snd (readAttempt p d a f) = Success v"
    using readAttempt_valid [OF opened sent data long ident] v by simp
  have range: "0 \<le> v \<and> v \<le> 100"
    using v by simp
  have low: "bs ! 3 = 57 \<longrightarrow> v = 57" and high: "bs ! 3 = 250 \<longrightarrow> v = 100"
    using v by simp_all
  show ?thesis
    using out range low high pollSettled_value [of v s] pollSettled_commit [of s v] by blast
qed

lemma pressed_state:
  "onPluginData battery_key initial_state
     = initial_state\<lparr>batteryKeys := [''dev:1''], pollInFlight := True, awaitedForceRedraw := True,
         effects := [ReadBatteryOnce DEFAULT_CONFIG]\<rparr>"
  by (simp add: onPluginData_def battery_key_def initial_state_def pollAndUpdate_def makeKeyId_def
      Let_def)

theorem battery_value_clamped_witness:
  "snd (readAttempt ''usb-1'' (Fin 50) 1 (ready_device [0xF7, 0, 0, 57])) = Success 57
   \<and> latestStatus (pollSettled (Inr 57) (onPluginData battery_key initial_state)) = Value 57 ''57%''
   \<and> snd (readAttempt ''usb-1'' (Fin 50) 1 (ready_device [0xF7, 0, 0, 250])) = Success 100
   \<and> latestStatus (pollSettled (Inr 100) (onPluginData battery_key initial_state)) = Value 100 ''100%''"
proof -
  have forced: "awaitedForceRedraw (onPluginData battery_key initial_state)"
    by (simp add: pressed_state)
  have l57: "int_toString 10 57 @ ''%'' = ''57%''" and l100: "int_toString 10 100 @ ''%'' = ''100%''"
    by (simp_all add: int_toString_def digits_of.simps digit_char_def char_of_def bit_Suc_0_iff)
  have a: "open_throws (ready_device bs) = None" "send_throws (ready_device bs) = None"
    "report (ready_device bs) = Inr (Some bs)" for bs
    by (simp_all add: ready_device_def)
  have v57: "(57::int) = min 100 (max 0 (uint (([0xF7, 0, 0, 57] :: byte list) ! 3)))"
    by simp
  have v100: "(100::int) = min 100 (max 0 (uint (([0xF7, 0, 0, 250] :: byte list) ! 3)))"
    by simp
  show ?thesis
    using battery_value_clamped [OF a(1) a(2) a(3) _ _ v57,
            of "''usb-1''" "Fin 50" 1 "onPluginData battery_key initial_state"]
          battery_value_clamped [OF a(1) a(2) a(3) _ _ v100,
            of "''usb-1''" "Fin 50" 1 "onPluginData battery_key initial_state"]
          forced
    by (simp add: l57 l100)
qed

lemma handle_open_after_append:
  "handle_open_after h (xs @ ys) = handle_open_after (handle_open_after h xs) ys"
  by (induction h xs rule: handle_open_after.induct) simp_all

lemma handle_open_after_wait: "handle_open_after h (wait d) = h"
  by (simp add: wait_def)

lemma readAttempt_closes: "\<not> handle_open_after False (fst (readAttempt p d a f))"
  by (simp add: readAttempt_def Let_def safeClose_def handle_open_after_append handle_open_after_wait
      split: option.splits sum.splits)

lemma readAttempt_close_called:
  "open_throws f = None \<Longrightarrow> CloseDevice (close_throws f) \<in> set (fst (readAttempt p d a f))"
  by (simp add: readAttempt_def Let_def safeClose_def split: option.splits sum.splits)

lemma readAttempt_close_silent:
  "snd (readAttempt p d a (f\<lparr>close_throws := c\<rparr>)) = snd (readAttempt p d a f)"
  by (simp add: readAttempt_def Let_def split: option.splits sum.splits)

lemma resolve_no_handle: "\<not> handle_open_after False (fst (resolveTargetPath w config))"
  by (simp add: resolveTargetPath_def Let_def split: option.splits sum.splits)

lemma readAttempt_closes_events:
  "readAttempt p d a f = (evs, out) \<Longrightarrow> handle_open_after False evs = False"
  using readAttempt_closes [of p d a f] by simp

lemma retryLoop_closes:
  assumes "retryLoop env p d N a le tr = Some y"
  shows "\<not> handle_open_after False tr \<longrightarrow> \<not> handle_open_after False (fst y)"
  by (rule retryLoop.raw_induct
        [where P = "\<lambda>env p d N a le tr y.
                      \<not> handle_open_after False tr \<longrightarrow> \<not> handle_open_after False (fst y)",
         OF _ assms])
     (auto split: if_splits prod.splits attempt_outcome.splits
           simp add: handle_open_after_append readAttempt_closes_events)

text \<open>
  C9: every attempt, however it ends, leaves no handle open: when the open succeeded,
  \<open>close()\<close> is called through \<open>safeClose\<close> before the attempt ends. Whether
  \<open>close()\<close> throws does not change the outcome of the attempt. A read that returns
  leaves no handle open either.
\<close>

theorem handle_closed_on_every_exit:
  "\<not> handle_open_after False (fst (readAttempt p d a f))
   \<and> (open_throws f = None \<longrightarrow> CloseDevice (close_throws f) \<in> set (fst (readAttempt p d a f)))
   \<and> snd (readAttempt p d a (f\<lparr>close_throws := c\<rparr>)) = snd (readAttempt p d a f)
   \<and> (readBatteryPercentage w config = Some (evs, r) \<longrightarrow> \<not> handle_open_after False evs)"
proof -
  have whole: "readBatteryPercentage w config = Some (evs, r) \<longrightarrow> \<not> handle_open_after False evs"
  proof
    assume ret: "readBatteryPercentage w config = Some (evs, r)"
    obtain evs0 res where rs: "resolveTargetPath w config = (evs0, res)"
      by (cases "resolveTargetPath w config")
    have c0: "\<not> handle_open_after False evs0"
      using resolve_no_handle [of w config] by (simp add: rs)
    show "\<not> handle_open_after False evs"
    proof (cases res)
      case (Inl msg)
      then show ?thesis using ret rs c0 by (simp add: readBatteryPercentage_def)
    next
      case (Inr path)
      then have "retryLoop (faults w) path (normInitDelay config) (normRetryCount config) 1 None evs0
                 = Some (evs, r)"
        using ret rs by (simp add: readBatteryPercentage_def)
      from retryLoop_closes [OF this] c0 show ?thesis by simp
    qed
  qed
  show ?thesis
    using readAttempt_closes readAttempt_close_called readAttempt_close_silent whole by blast
qed

theorem handle_closed_on_every_exit_witness:
  "\<not> handle_open_after False
        (fst (readAttempt ''usb-1'' (Fin 50) 1 ((ready_device [0xF7, 0, 0, 250]) \<lparr>close_throws := True\<rparr>)))
   \<and> CloseDevice True
        \<in> set (fst (readAttempt ''usb-1'' (Fin 50) 1 ((ready_device [0xF7, 0, 0, 250]) \<lparr>close_throws := True\<rparr>)))
   \<and> snd (readAttempt ''usb-1'' (Fin 50) 1 ((ready_device [0xF7, 0, 0, 250]) \<lparr>close_throws := True\<rparr>))
       = snd (readAttempt ''usb-1'' (Fin 50) 1 (ready_device [0xF7, 0, 0, 250]))
   \<and> \<not> handle_open_after False
        [OpenDevice ''usb-1'' True, SendFeatureReport ANGRY_MIAO_INIT_FEATURE True,
         SetTimeout (Fin 50), GetFeatureReport 247 65, CloseDevice False, CloseDevice False]"
  using handle_closed_on_every_exit
          [of "''usb-1''" "Fin 50" 1 "ready_device [0xF7, 0, 0, 250]" True
              steady_world pinned_config
              "[OpenDevice ''usb-1'' True, SendFeatureReport ANGRY_MIAO_INIT_FEATURE True,
                SetTimeout (Fin 50), GetFeatureReport 247 65, CloseDevice False, CloseDevice False]"
              "Inr 100"]
        handle_closed_on_every_exit
          [of "''usb-1''" "Fin 50" 1 "(ready_device [0xF7, 0, 0, 250]) \<lparr>close_throws := True\<rparr>" True
              steady_world pinned_config
              "[OpenDevice ''usb-1'' True, SendFeatureReport ANGRY_MIAO_INIT_FEATURE True,
                SetTimeout (Fin 50), GetFeatureReport 247 65, CloseDevice False, CloseDevice False]"
              "Inr 100"]
        steady_read
  by (simp add: ready_device_def)

section \<open>Locating the device\<close>

text \<open>
  C3, as stated, selects among all entries whose vendor and product ids match. The code
  first drops the entries without a usable path (\<open>if (!devicePath) continue\<close>): here
  the entry with interface 2 has no path, and the code returns the path of the other one.
\<close>

theorem findDevicePath_unusable_counterexample:
  "locate_as_specified 0x3151 0x5007 unusable_first
     = Some \<lparr>vendorId = 0x3151, productId = 0x5007, path = PathUndefined,
              interface = Some 2, interfaceNumber = None\<rparr>
   \<and> findDevicePath (Inr unusable_first) 0x3151 0x5007 = Inr (Some ''usb-b'')
   \<and> findDevicePath (Inr unusable_first) 0x3151 0x5007
       \<noteq> Inr (map_option candidate_path (locate_as_specified 0x3151 0x5007 unusable_first))"
  by (simp add: locate_as_specified_def findDevicePath_def unusable_first_def iface_of_def
      candidate_path_def Let_def)

lemma collect_matches_filter:
  "collect_matches v p devices
   = map (\<lambda>d. (d, candidate_path d))
       (filter (\<lambda>d. vendorId d = v \<and> productId d = p) (filter has_path devices))"
  by (induction devices)
     (auto simp add: has_path_def candidate_path_def split: option.splits)

lemma find_map_pair:
  "List.find (\<lambda>(info, devicePath). P info devicePath) (map (\<lambda>d. (d, g d)) xs)
   = map_option (\<lambda>d. (d, g d)) (List.find (\<lambda>d. P d (g d)) xs)"
  by (induction xs) simp_all

lemma findDevicePath_refines:
  "findDevicePath (Inr devices) v p
   = Inr (map_option candidate_path (locate_as_specified v p (filter has_path devices)))"
proof -
  define cands where "cands = filter (\<lambda>d. vendorId d = v \<and> productId d = p) (filter has_path devices)"
  have m: "collect_matches v p devices = map (\<lambda>d. (d, candidate_path d)) cands"
    unfolding cands_def by (rule collect_matches_filter)
  have spec: "locate_as_specified v p (filter has_path devices)
              = (case List.find (\<lambda>d. iface_of d = Some 2) cands of
                   Some d \<Rightarrow> Some d
                 | None \<Rightarrow>
                     (case List.find (\<lambda>d. js_includes (toLowerCase (candidate_path d)) ''mi_02'') cands of
                        Some d \<Rightarrow> Some d
                      | None \<Rightarrow> (case cands of [] \<Rightarrow> None | d # _ \<Rightarrow> Some d)))"
    unfolding locate_as_specified_def cands_def Let_def ..
  show ?thesis
    by (cases cands)
       (auto simp add: findDevicePath_def m spec Let_def find_map_pair split: option.splits)
qed

text \<open>
  C3 (amended): for every enumeration result, \<open>findDevicePath\<close> keeps the entries whose
  vendor and product ids match exactly and whose path is not empty, and returns the path
  of the first with interface number 2, else of the first whose path contains \<open>mi_02\<close>
  in any case, else of the first kept entry. When nothing is kept and no path is
  configured, the read fails with "Device not found" naming vendor and product id in hex.
\<close>

theorem findDevicePath_selection:
  "findDevicePath (Inr devices) v p
     = Inr (map_option candidate_path (locate_as_specified v p (filter has_path devices)))
   \<and> (js_trim (case hidPath config of None \<Rightarrow> [] | Some s \<Rightarrow> s) = []
        \<and> enumeration w = Inr devices
        \<and> locate_as_specified (targetVid config) (targetPid config) (filter has_path devices) = None
      \<longrightarrow> readBatteryPercentage w config
            = Some ([EnumerateDevices],
                    Inl (deviceNotFoundMessage (targetVid config) (targetPid config))))
   \<and> (js_trim (case hidPath config of None \<Rightarrow> [] | Some s \<Rightarrow> s) = []
        \<and> enumeration w = Inr devices
        \<and> locate_as_specified (targetVid config) (targetPid config) (filter has_path devices) = Some d
      \<longrightarrow> resolveTargetPath w config = ([EnumerateDevices], Inr (candidate_path d)))"
  by (simp add: findDevicePath_refines readBatteryPercentage_def resolveTargetPath_def Let_def)

theorem findDevicePath_selection_witness:
  "findDevicePath (Inr three_interfaces) 0x3151 0x5007 = Inr (Some ''HID#VID_3151&PID_5007&MI_02'')
   \<and> readBatteryPercentage \<lparr>enumeration = Inr unusable_first, faults = faults steady_world\<rparr>
        (DEFAULT_CONFIG \<lparr>vid := Some 0x046D\<rparr>)
       = Some ([EnumerateDevices], Inl ''Device not found (VID 0x046d, PID 0x5007)'')
   \<and> resolveTargetPath \<lparr>enumeration = Inr three_interfaces, faults = faults steady_world\<rparr> DEFAULT_CONFIG
       = ([EnumerateDevices], Inr ''HID#VID_3151&PID_5007&MI_02'')"
proof -
  have sel: "locate_as_specified 0x3151 0x5007 (filter has_path three_interfaces)
             = Some \<lparr>vendorId = 0x3151, productId = 0x5007, path = PathString ''HID#VID_3151&PID_5007&MI_02'',
                      interface = None, interfaceNumber = None\<rparr>"
    by (simp add: locate_as_specified_def three_interfaces_def has_path_def candidate_path_def
        iface_of_def toLowerCase_def lower_char_def char_of_def bit_Suc_0_iff Let_def)
  have none: "locate_as_specified 0x046D 0x5007 (filter has_path unusable_first) = None"
    by (simp add: locate_as_specified_def unusable_first_def has_path_def candidate_path_def)
  have msg: "deviceNotFoundMessage 0x046D 0x5007 = ''Device not found (VID 0x046d, PID 0x5007)''"
    by (simp add: deviceNotFoundMessage_def padStart_def int_toString_def digits_of.simps
        digit_char_def char_of_def bit_Suc_0_iff)
  have cfg: "js_trim (case hidPath DEFAULT_CONFIG of None \<Rightarrow> [] | Some s \<Rightarrow> s) = []"
    "targetVid DEFAULT_CONFIG = 0x3151" "targetPid DEFAULT_CONFIG = 0x5007"
    "js_trim (case hidPath (DEFAULT_CONFIG \<lparr>vid := Some 0x046D\<rparr>) of None \<Rightarrow> [] | Some s \<Rightarrow> s) = []"
    "targetVid (DEFAULT_CONFIG \<lparr>vid := Some 0x046D\<rparr>) = 0x046D"
    "targetPid (DEFAULT_CONFIG \<lparr>vid := Some 0x046D\<rparr>) = 0x5007"
    by (simp_all add: DEFAULT_CONFIG_def js_trim_def targetVid_def targetPid_def
        DEFAULT_VENDOR_ID_def DEFAULT_PRODUCT_ID_def)
  show ?thesis
    using findDevicePath_selection
            [of three_interfaces "0x3151" "0x5007" DEFAULT_CONFIG
                "\<lparr>enumeration = Inr three_interfaces, faults = faults steady_world\<rparr>"
                "\<lparr>vendorId = 0x3151, productId = 0x5007, path = PathString ''HID#VID_3151&PID_5007&MI_02'',
                      interface = None, interfaceNumber = None\<rparr>"]
          findDevicePath_selection
            [of unusable_first "0x046D" "0x5007" "DEFAULT_CONFIG \<lparr>vid := Some 0x046D\<rparr>"
                "\<lparr>enumeration = Inr unusable_first, faults = faults steady_world\<rparr>"]
    by (simp add: sel none msg cfg candidate_path_def)
qed

section \<open>Normalising the configuration\<close>

lemma retryLoop_finite:
  "\<exists>evs r. retryLoop env p d (Fin (real N)) a le tr = Some (tr @ evs, r)
           \<and> (a \<le> N \<longrightarrow> 1 \<le> attempts_made evs)"
proof (induction "N + 1 - a" arbitrary: a le tr)
  case 0
  then have "\<not> js_le (Fin (real a)) (Fin (real N))" by simp
  from retryLoop_exit [OF this, of env p d le tr] show ?case
    using 0 by auto
next
  case (Suc n)
  then have here: "js_le (Fin (real a)) (Fin (real N))" by simp
  have one: "attempts_made (attemptEvents env p d a) = 1"
    by (simp add: attemptEvents_def attempts_made_readAttempt)
  show ?case
  proof (cases "attemptOutcome env p d a")
    case (Success v)
    from retryLoop_success_step [OF here Success, of le tr] show ?thesis
      using one by auto
  next
    case (Failure msg)
    have step: "retryLoop env p d (Fin (real N)) a le tr
                = retryLoop env p d (Fin (real N)) (a + 1) (Some msg) (tr @ attemptEvents env p d a)"
      by (rule retryLoop_failure_step [OF here Failure])
    have "n = N + 1 - (a + 1)" using Suc.hyps(2) by simp
    from Suc.hyps(1) [OF this, of "Some msg" "tr @ attemptEvents env p d a"]
    obtain evs r where rest:
      "retryLoop env p d (Fin (real N)) (a + 1) (Some msg) (tr @ attemptEvents env p d a)
       = Some ((tr @ attemptEvents env p d a) @ evs, r)"
      by blast
    have "retryLoop env p d (Fin (real N)) a le tr = Some (tr @ (attemptEvents env p d a @ evs), r)"
      using step rest by simp
    moreover have "1 \<le> attempts_made (attemptEvents env p d a @ evs)"
      using one by (simp add: attempts_made_append)
    ultimately show ?thesis by blast
  qed
qed

lemma normInitDelay_cases:
  "normInitDelay config = PosInf \<or> (\<exists>n::nat. normInitDelay config = Fin (real n))"
proof (cases "initDelayMs config")
  case None
  then show ?thesis by (auto simp add: normInitDelay_def trunc_real_def intro: exI [of _ 0])
next
  case (Some x)
  show ?thesis
  proof (cases x)
    case (Fin r)
    let ?m = "max 0 (trunc_real r)"
    have "normInitDelay config = Fin (real_of_int ?m)"
      using Some Fin by (simp add: normInitDelay_def max_def trunc_real_def)
    moreover have "real_of_int ?m = real (nat ?m)" by simp
    ultimately show ?thesis by metis
  qed (use Some in \<open>auto simp add: normInitDelay_def trunc_real_def intro: exI [of _ 0]\<close>)
qed

lemma normRetryCount_infinite:
  "normRetryCount config = PosInf \<longleftrightarrow> retryCount config = Some PosInf"
proof (cases "retryCount config")
  case None
  then show ?thesis by (simp add: normRetryCount_def)
next
  case (Some x)
  then show ?thesis by (cases x) (simp_all add: normRetryCount_def)
qed

lemma normInitDelay_infinite:
  "normInitDelay config = PosInf \<longleftrightarrow> initDelayMs config = Some PosInf"
proof (cases "initDelayMs config")
  case None
  then show ?thesis by (simp add: normInitDelay_def)
next
  case (Some x)
  then show ?thesis by (cases x) (simp_all add: normInitDelay_def)
qed

lemma first_attempt_runs:
  assumes "resolveTargetPath w config = (evs0, Inr p)"
  shows "readBatteryPercentage w config
         = (case readAttempt p (normInitDelay config) 1 (faults w 1) of
              (evs, Success b) \<Rightarrow> Some (evs0 @ evs, Inr b)
            | (evs, Failure msg) \<Rightarrow>
                retryLoop (faults w) p (normInitDelay config) (normRetryCount config) 2 (Some msg)
                  (evs0 @ evs))"
proof -
  have "js_le (Fin (real 1)) (normRetryCount config)"
    using normRetryCount_cases [of config] by auto
  then show ?thesis
    using assms
    by (simp add: readBatteryPercentage_def)
       (subst retryLoop.simps, simp add: numeral_2_eq_2 split: prod.splits attempt_outcome.splits)
qed

text \<open>
  C10, as stated, promises at least one attempt and an integer delay for every
  configuration. With no path configured and no device found the read throws before the
  loop, having made no attempt; and an \<open>initDelayMs\<close> of plus infinity stays infinite.
\<close>

theorem normalised_config_counterexample:
  "readBatteryPercentage absent_world DEFAULT_CONFIG
     = Some ([EnumerateDevices], Inl ''Device not found (VID 0x3151, PID 0x5007)'')
   \<and> attempts_made [EnumerateDevices] = 0
   \<and> normInitDelay (DEFAULT_CONFIG \<lparr>initDelayMs := Some PosInf\<rparr>) = PosInf"
  by (simp add: readBatteryPercentage_def resolveTargetPath_def DEFAULT_CONFIG_def absent_world_def
      findDevicePath_def js_trim_def targetVid_def targetPid_def DEFAULT_VENDOR_ID_def
      DEFAULT_PRODUCT_ID_def deviceNotFoundMessage_def padStart_def int_toString_def
      digits_of.simps digit_char_def char_of_def bit_Suc_0_iff attempts_made_def normInitDelay_def)

text \<open>
  C10 (amended): \<open>readBatteryPercentage\<close> normalises \<open>retryCount\<close> to
  \<open>max(1, trunc(retryCount || 1))\<close> and \<open>initDelayMs\<close> to
  \<open>max(0, trunc(initDelayMs || 0))\<close>. For every \<open>retryCount\<close> but plus infinity
  (missing, zero, negative, \<open>NaN\<close> or fractional included) the result is an integer
  of at least 1, and for every \<open>initDelayMs\<close> but plus infinity the delay is a
  non-negative integer. Whenever the target path is resolved the first attempt is run,
  and with a finite \<open>retryCount\<close> the read returns after at least one attempt.
\<close>

theorem config_normalised:
  "(retryCount config \<noteq> Some PosInf \<longrightarrow> (\<exists>n::nat. 1 \<le> n \<and> normRetryCount config = Fin (real n)))
   \<and> (initDelayMs config \<noteq> Some PosInf \<longrightarrow> (\<exists>n::nat. normInitDelay config = Fin (real n)))
   \<and> (retryCount config = Some (Fin r) \<and> r \<noteq> 0
        \<longrightarrow> normRetryCount config = Fin (real_of_int (max 1 (trunc_real r))))
   \<and> (retryCount config = None \<or> retryCount config = Some NaN \<or> retryCount config = Some (Fin 0)
        \<or> retryCount config = Some NegInf
        \<longrightarrow> normRetryCount config = Fin 1)
   \<and> (initDelayMs config = Some (Fin r') \<longrightarrow> normInitDelay config = Fin (real_of_int (max 0 (trunc_real r'))))
   \<and> (initDelayMs config = None \<or> initDelayMs config = Some NaN \<or> initDelayMs config = Some NegInf
        \<longrightarrow> normInitDelay config = Fin 0)
   \<and> (resolveTargetPath w config = (evs0, Inr p)
        \<longrightarrow> readBatteryPercentage w config
            = (case readAttempt p (normInitDelay config) 1 (faults w 1) of
                 (evs, Success b) \<Rightarrow> Some (evs0 @ evs, Inr b)
               | (evs, Failure msg) \<Rightarrow>
                   retryLoop (faults w) p (normInitDelay config) (normRetryCount config) 2 (Some msg)
                     (evs0 @ evs)))
   \<and> (resolveTargetPath w config = (evs0, Inr p) \<and> retryCount config \<noteq> Some PosInf
        \<longrightarrow> (\<exists>evs res. readBatteryPercentage w config = Some (evs, res) \<and> 1 \<le> attempts_made evs))"
proof -
  have c1: "retryCount config \<noteq> Some PosInf \<longrightarrow> (\<exists>n::nat. 1 \<le> n \<and> normRetryCount config = Fin (real n))"
    using normRetryCount_cases [of config] normRetryCount_infinite [of config] by auto
  have c2: "initDelayMs config \<noteq> Some PosInf \<longrightarrow> (\<exists>n::nat. normInitDelay config = Fin (real n))"
    using normInitDelay_cases [of config] normInitDelay_infinite [of config] by auto
  have c3: "retryCount config = Some (Fin r) \<and> r \<noteq> 0
        \<longrightarrow> normRetryCount config = Fin (real_of_int (max 1 (trunc_real r)))"
    by (simp add: normRetryCount_def max_def)
  have c4: "retryCount config = None \<or> retryCount config = Some NaN \<or> retryCount config = Some (Fin 0)
        \<or> retryCount config = Some NegInf
        \<longrightarrow> normRetryCount config = Fin 1"
    by (auto simp add: normRetryCount_def trunc_real_def)
  have c5: "initDelayMs config = Some (Fin r') \<longrightarrow> normInitDelay config = Fin (real_of_int (max 0 (trunc_real r')))"
    by (simp add: normInitDelay_def max_def trunc_real_def)
  have c6: "initDelayMs config = None \<or> initDelayMs config = Some NaN \<or> initDelayMs config = Some NegInf
        \<longrightarrow> normInitDelay config = Fin 0"
    by (auto simp add: normInitDelay_def trunc_real_def)
  have c7: "resolveTargetPath w config = (evs0, Inr p)
        \<longrightarrow> readBatteryPercentage w config
            = (case readAttempt p (normInitDelay config) 1 (faults w 1) of
                 (evs, Success b) \<Rightarrow> Some (evs0 @ evs, Inr b)
               | (evs, Failure msg) \<Rightarrow>
                   retryLoop (faults w) p (normInitDelay config) (normRetryCount config) 2 (Some msg)
                     (evs0 @ evs))"
    using first_attempt_runs by blast
  have c8: "resolveTargetPath w config = (evs0, Inr p) \<and> retryCount config \<noteq> Some PosInf
        \<longrightarrow> (\<exists>evs res. readBatteryPercentage w config = Some (evs, res) \<and> 1 \<le> attempts_made evs)"
  proof
    assume a: "resolveTargetPath w config = (evs0, Inr p) \<and> retryCount config \<noteq> Some PosInf"
    then obtain n :: nat where n: "1 \<le> n" "normRetryCount config = Fin (real n)"
      using c1 by blast
    from retryLoop_finite [of "faults w" p "normInitDelay config" n 1 None evs0]
    obtain evs res where
      "retryLoop (faults w) p (normInitDelay config) (Fin (real n)) 1 None evs0 = Some (evs0 @ evs, res)"
      "1 \<le> attempts_made evs"
      using n(1) by blast
    then have "readBatteryPercentage w config = Some (evs0 @ evs, res) \<and> 1 \<le> attempts_made (evs0 @ evs)"
      using a n(2) by (simp add: readBatteryPercentage_def attempts_made_append)
    then show "\<exists>evs res. readBatteryPercentage w config = Some (evs, res) \<and> 1 \<le> attempts_made evs"
      by blast
  qed
  show ?thesis
    using c1 c2 c3 c4 c5 c6 c7 c8 by blast
qed

theorem config_normalised_witness:
  "normRetryCount careless_config = Fin 2
   \<and> normInitDelay careless_config = Fin 0
   \<and> normRetryCount (careless_config \<lparr>retryCount := None\<rparr>) = Fin 1
   \<and> normRetryCount (careless_config \<lparr>retryCount := Some (Fin (- 3))\<rparr>) = Fin 1
   \<and> (\<exists>evs res. readBatteryPercentage steady_world careless_config = Some (evs, res)
                   \<and> 1 \<le> attempts_made evs)"
proof -
  have path: "resolveTargetPath steady_world careless_config = ([], Inr ''usb-1'')"
    by (simp add: resolveTargetPath_def careless_config_def js_trim_def is_js_space_def)
  have fields: "retryCount careless_config = Some (Fin (27 / 10))"
    "initDelayMs careless_config = Some (Fin (- 20))"
    "retryCount (careless_config \<lparr>retryCount := None\<rparr>) = None"
    "retryCount (careless_config \<lparr>retryCount := Some (Fin (- 3))\<rparr>) = Some (Fin (- 3))"
    by (simp_all add: careless_config_def)
  have tr: "trunc_real (27 / 10) = 2" "trunc_real (- 20) = - 20" "trunc_real (- 3) = - 3"
    by (simp_all add: trunc_real_def)
  note main = config_normalised [of careless_config "27 / 10" "- 20" steady_world "[]" "''usb-1''"]
  have finite: "retryCount careless_config \<noteq> Some PosInf"
    by (simp add: fields)
  have returns: "\<exists>evs res. readBatteryPercentage steady_world careless_config = Some (evs, res)
                   \<and> 1 \<le> attempts_made evs"
    using main path finite by blast
  have norm: "normRetryCount careless_config = Fin 2 \<and> normInitDelay careless_config = Fin 0"
    using main by (simp add: fields tr)
  have missing: "normRetryCount (careless_config \<lparr>retryCount := None\<rparr>) = Fin 1"
    using config_normalised [of "careless_config \<lparr>retryCount := None\<rparr>" 1 "- 20" steady_world "[]" "''usb-1''"]
    by (simp add: fields)
  have negative: "normRetryCount (careless_config \<lparr>retryCount := Some (Fin (- 3))\<rparr>) = Fin 1"
    using config_normalised [of "careless_config \<lparr>retryCount := Some (Fin (- 3))\<rparr>" "- 3" "- 20" steady_world "[]" "''usb-1''"]
    by (simp add: fields tr)
  show ?thesis
    using norm missing negative returns by blast
qed

section \<open>The polling scheduler\<close>

lemma reads_started_draws:
  "reads_started (s\<lparr>effects := effects s @ map (\<lambda>k. DrawKey k st) ks\<rparr>) = reads_started s"
  by (induction ks) (simp_all add: reads_started_def)

lemma fire_in_flight:
  assumes "pollInFlight s"
  shows "pollInFlight (fire t s)
       \<and> effects (fire t s) = effects s
       \<and> pendingForcedRefresh (fire t s) = (pendingForcedRefresh s \<or> is_forced t)
       \<and> (is_forced t \<longrightarrow> batteryKeys (fire t s) \<noteq> [])
       \<and> (batteryKeys s \<noteq> [] \<longrightarrow> batteryKeys (fire t s) \<noteq> [])
       \<and> (\<not> is_forced t \<longrightarrow> fire t s = s)"
  using assms
  by (cases t)
     (auto simp add: onTimerTick_def onPluginData_def pollAndUpdate_def Let_def)

lemma fire_all_in_flight:
  assumes "pollInFlight s"
  shows "pollInFlight (fire_all ts s)
       \<and> effects (fire_all ts s) = effects s
       \<and> pendingForcedRefresh (fire_all ts s) = (pendingForcedRefresh s \<or> list_ex is_forced ts)
       \<and> (list_ex is_forced ts \<longrightarrow> batteryKeys (fire_all ts s) \<noteq> [])
       \<and> (batteryKeys s \<noteq> [] \<longrightarrow> batteryKeys (fire_all ts s) \<noteq> [])
       \<and> (\<not> list_ex is_forced ts \<longrightarrow> fire_all ts s = s)"
  using assms
proof (induction ts arbitrary: s)
  case Nil
  then show ?case by simp
next
  case (Cons t ts)
  note one = fire_in_flight [OF Cons.prems, of t]
  then have fl: "pollInFlight (fire t s)" by simp
  note rest = Cons.IH [OF fl]
  show ?case
    using one rest by (auto simp add: )
qed

lemma pollSettled_pending:
  assumes "pollInFlight s" and "pendingForcedRefresh s" and "batteryKeys s \<noteq> []"
  shows "pollInFlight (pollSettled r s) \<and> \<not> pendingForcedRefresh (pollSettled r s)
       \<and> awaitedForceRedraw (pollSettled r s)
       \<and> reads_started (pollSettled r s) = reads_started s + 1"
  using assms
  by (auto simp add: pollSettled_def pollAndUpdate_def renderAllKeys_def Let_def
        reads_started_def)

lemma pollSettled_idle:
  assumes "pollInFlight s" and "\<not> pendingForcedRefresh s"
  shows "\<not> pollInFlight (pollSettled r s) \<and> \<not> pendingForcedRefresh (pollSettled r s)
       \<and> reads_started (pollSettled r s) = reads_started s"
  using assms
  by (auto simp add: pollSettled_def pollAndUpdate_def renderAllKeys_def Let_def
        reads_started_def)

text \<open>
  C7: take a poll in flight with no forced refresh pending, and any run of timer ticks
  and key presses arriving before it settles. No read is started meanwhile. If the run
  holds at least one key press, however many, the flag is set, and when the poll settles
  the flag is cleared and exactly one more read is started, as a forced redraw. If the run
  holds timer ticks only, the state is left as it was, nothing is pending, and no read is
  started when the poll settles.
\<close>

theorem forced_refresh_coalesced:
  assumes flying: "pollInFlight s" and fresh: "\<not> pendingForcedRefresh s"
  shows "pollInFlight (fire_all ts s)
       \<and> reads_started (fire_all ts s) = reads_started s
       \<and> pendingForcedRefresh (fire_all ts s) = list_ex is_forced ts
       \<and> (list_ex is_forced ts \<longrightarrow>
            pollInFlight (pollSettled r (fire_all ts s))
            \<and> \<not> pendingForcedRefresh (pollSettled r (fire_all ts s))
            \<and> awaitedForceRedraw (pollSettled r (fire_all ts s))
            \<and> reads_started (pollSettled r (fire_all ts s)) = reads_started s + 1)
       \<and> (\<not> list_ex is_forced ts \<longrightarrow>
            fire_all ts s = s
            \<and> \<not> pollInFlight (pollSettled r (fire_all ts s))
            \<and> \<not> pendingForcedRefresh (pollSettled r (fire_all ts s))
            \<and> reads_started (pollSettled r (fire_all ts s)) = reads_started s)"
proof -
  note window = fire_all_in_flight [OF flying, of ts]
  have same: "reads_started (fire_all ts s) = reads_started s"
    using window by (simp add: reads_started_def)
  have pend: "pendingForcedRefresh (fire_all ts s) = list_ex is_forced ts"
    using window fresh by simp
  have forced: "list_ex is_forced ts \<longrightarrow>
            pollInFlight (pollSettled r (fire_all ts s))
            \<and> \<not> pendingForcedRefresh (pollSettled r (fire_all ts s))
            \<and> awaitedForceRedraw (pollSettled r (fire_all ts s))
            \<and> reads_started (pollSettled r (fire_all ts s)) = reads_started s + 1"
  proof
    assume ex: "list_ex is_forced ts"
    have "pollInFlight (fire_all ts s)" "pendingForcedRefresh (fire_all ts s)"
      "batteryKeys (fire_all ts s) \<noteq> []"
      using window pend ex by simp_all
    from pollSettled_pending [OF this, of r] same
    show "pollInFlight (pollSettled r (fire_all ts s))
            \<and> \<not> pendingForcedRefresh (pollSettled r (fire_all ts s))
            \<and> awaitedForceRedraw (pollSettled r (fire_all ts s))
            \<and> reads_started (pollSettled r (fire_all ts s)) = reads_started s + 1"
      by simp
  qed
  have plain: "\<not> list_ex is_forced ts \<longrightarrow>
            fire_all ts s = s
            \<and> \<not> pollInFlight (pollSettled r (fire_all ts s))
            \<and> \<not> pendingForcedRefresh (pollSettled r (fire_all ts s))
            \<and> reads_started (pollSettled r (fire_all ts s)) = reads_started s"
  proof
    assume no: "\<not> list_ex is_forced ts"
    then have id: "fire_all ts s = s"
      using window by simp
    from pollSettled_idle [OF flying fresh, of r] id
    show "fire_all ts s = s
            \<and> \<not> pollInFlight (pollSettled r (fire_all ts s))
            \<and> \<not> pendingForcedRefresh (pollSettled r (fire_all ts s))
            \<and> reads_started (pollSettled r (fire_all ts s)) = reads_started s"
      by simp
  qed
  show ?thesis
    using window same pend forced plain by blast
qed

theorem forced_refresh_coalesced_witness:
  "pollInFlight (onPluginData battery_key initial_state)
   \<and> \<not> pendingForcedRefresh (onPluginData battery_key initial_state)
   \<and> reads_started (onPluginData battery_key initial_state) = 1
   \<and> reads_started
        (pollSettled (Inr 57)
           (fire_all [ForcedRefresh battery_key, TimerTick, ForcedRefresh battery_key, ForcedRefresh battery_key]
              (onPluginData battery_key initial_state))) = 2
   \<and> pollInFlight
        (pollSettled (Inr 57)
           (fire_all [ForcedRefresh battery_key, TimerTick, ForcedRefresh battery_key, ForcedRefresh battery_key]
              (onPluginData battery_key initial_state)))
   \<and> reads_started
        (pollSettled (Inr 57) (fire_all [TimerTick, TimerTick] (onPluginData battery_key initial_state))) = 1
   \<and> \<not> pollInFlight
        (pollSettled (Inr 57) (fire_all [TimerTick, TimerTick] (onPluginData battery_key initial_state)))"
proof -
  have flying: "pollInFlight (onPluginData battery_key initial_state)"
    and fresh: "\<not> pendingForcedRefresh (onPluginData battery_key initial_state)"
    and one: "reads_started (onPluginData battery_key initial_state) = 1"
    unfolding pressed_state by (simp_all add: initial_state_def reads_started_def)
  have forced: "list_ex is_forced [ForcedRefresh battery_key, TimerTick, ForcedRefresh battery_key, ForcedRefresh battery_key]"
    and plain: "\<not> list_ex is_forced [TimerTick, TimerTick]"
    by (simp_all add: battery_key_def)
  let ?s = "onPluginData battery_key initial_state"
  let ?busy = "[ForcedRefresh battery_key, TimerTick, ForcedRefresh battery_key, ForcedRefresh battery_key]"
  note pressed = forced_refresh_coalesced [OF flying fresh, of ?busy "Inr 57"]
  note ticked = forced_refresh_coalesced [OF flying fresh, of "[TimerTick, TimerTick]" "Inr 57"]
  have again: "reads_started (pollSettled (Inr 57) (fire_all ?busy ?s)) = reads_started ?s + 1"
    and busy: "pollInFlight (pollSettled (Inr 57) (fire_all ?busy ?s))"
    using pressed forced by blast+
  have still: "reads_started (pollSettled (Inr 57) (fire_all [TimerTick, TimerTick] ?s)) = reads_started ?s"
    and idle: "\<not> pollInFlight (pollSettled (Inr 57) (fire_all [TimerTick, TimerTick] ?s))"
    using ticked plain by blast+
  have two: "reads_started (pollSettled (Inr 57) (fire_all ?busy ?s)) = 2"
    unfolding again one by simp
  have once: "reads_started (pollSettled (Inr 57) (fire_all [TimerTick, TimerTick] ?s)) = 1"
    unfolding still one by simp
  show ?thesis
    using flying fresh one two busy once idle by blast
qed

text \<open>
  The interval: \<open>getPollIntervalMs\<close> is the larger of 5000 and the configured seconds
  times 1000, rounded. When a timer is running, \<open>plugin.config.updated\<close> stores the
  new interval in \<open>pollIntervalMs\<close> before it calls \<open>ensurePolling\<close>, which then finds
  \<open>pollIntervalMs === desiredInterval\<close> and returns.
\<close>

lemma polling_state_eq:
  "polling_state
   = \<lparr>pluginConfig = DEFAULT_CONFIG, batteryKeys = [''dev:1''], pollTimer = Some (Fin 30000),
      pollIntervalMs = Fin 30000, pollInFlight = False, latestStatus = Value 57 ''57%'',
      pendingForcedRefresh = False, awaitedForceRedraw = True,
      effects = [DrawKey ''dev:1'' (Unknown ''waiting''), SetInterval (Fin 30000),
                 ReadBatteryOnce DEFAULT_CONFIG, DrawKey ''dev:1'' (Value 57 ''57%'')]\<rparr>"
  by (simp add: polling_state_def onPluginAlive_def initial_state_def ensurePolling_def
      pollAndUpdate_def pollSettled_def renderAllKeys_def makeKeyId_def getPollIntervalMs_def
      MIN_POLL_INTERVAL_MS_def DEFAULT_CONFIG_def statusesEqual_def Let_def
      int_toString_def digits_of.simps digit_char_def char_of_def bit_Suc_0_iff)

lemma getPollIntervalMs_finite:
  "pollIntervalSeconds config = Fin secs
   \<Longrightarrow> getPollIntervalMs config = Fin (real_of_int (max 5000 \<lfloor>secs * 1000 + 1 / 2\<rfloor>))"
  by (simp add: getPollIntervalMs_def MIN_POLL_INTERVAL_MS_def max_def)

lemma onConfigUpdated_running_timer:
  assumes "pollTimer s = Some t" and "batteryKeys s \<noteq> []" and "pollIntervalSeconds config \<noteq> NaN"
  shows "onConfigUpdated config s
         = s\<lparr>pluginConfig := config, pollIntervalMs := getPollIntervalMs config\<rparr>"
proof -
  have "js_eq (getPollIntervalMs config) (getPollIntervalMs config)"
    using assms(3)
    by (cases "pollIntervalSeconds config")
       (simp_all add: getPollIntervalMs_def MIN_POLL_INTERVAL_MS_def)
  then show ?thesis
    using assms by (simp add: onConfigUpdated_def ensurePolling_def Let_def)
qed

text \<open>
  C8 at a concrete input: a key is shown, the timer runs at 30000 ms and the first poll
  has settled; then the configuration changes to a poll every 10 seconds. The claim asks
  for the timer to be cancelled and restarted at 10000 ms with a forced poll. The code
  leaves the timer of 30000 ms running, starts no timer and no read, and only stores the
  new configuration and \<open>pollIntervalMs = 10000\<close>.
\<close>

theorem config_change_keeps_old_timer:
  "pollTimer polling_state = Some (Fin 30000)
   \<and> getPollIntervalMs cfg10 = Fin 10000
   \<and> onConfigUpdated cfg10 polling_state
       = polling_state \<lparr>pluginConfig := cfg10, pollIntervalMs := Fin 10000\<rparr>
   \<and> pollTimer (onConfigUpdated cfg10 polling_state) = Some (Fin 30000)
   \<and> effects (onConfigUpdated cfg10 polling_state) = effects polling_state"
  by (simp add: polling_state_eq onConfigUpdated_def ensurePolling_def cfg10_def
      getPollIntervalMs_def MIN_POLL_INTERVAL_MS_def DEFAULT_CONFIG_def Let_def)

end
